theory Spec2Isabelle
  imports Main "HOL-Library.Multiset"
begin

section \<open>The item model (SFItem)\<close>

text \<open>
  Objects live on a heap and are named by their address: two variables that hold the same
  SFItem object hold the same address, so that a mutation through one is seen through the
  other, as in the JavaScript source.
\<close>

type_synonym ref = nat

text \<open>An entry of \<^verbatim>\<open>content.references\<close>: \<^verbatim>\<open>{uuid, content_type}\<close>.\<close>

record reference =
  ref_uuid :: string
  ref_content_type :: string

text \<open>
  The fields of an SFItem that the item graph, the dirty tracking and the singleton
  resolver read and write. \<^verbatim>\<open>dirtyCount\<close> is \<^verbatim>\<open>undefined\<close> (\<open>None\<close>) until
  \<^verbatim>\<open>setDirty\<close> or the sync engine writes it; the flags \<^verbatim>\<open>deleted\<close>, \<^verbatim>\<open>dirty\<close>,
  \<^verbatim>\<open>dummy\<close> and \<^verbatim>\<open>errorDecrypting\<close> are read by truthiness only, so
  \<^verbatim>\<open>undefined\<close> is \<open>False\<close>.
\<close>

record sfitem =
  uuid :: string
  content_type :: string
  references :: "reference list"
  referencingObjects :: "ref list"
  created_at :: int
  deleted :: bool
  dirty :: bool
  dirtyCount :: "nat option"
  dummy :: bool
  errorDecrypting :: bool

text \<open>
  \<^verbatim>\<open>SFItem.setDirty(dirty, dontUpdateClientDate)\<close>:
  \<^verbatim>\<open>this.dirty = dirty; if(!this.dirtyCount) this.dirtyCount = 0;
  if(dirty) this.dirtyCount++ else this.dirtyCount = 0\<close>.
  The remainder of the method stamps \<^verbatim>\<open>client_updated_at\<close> in the app data, which no
  other modelled operation reads.
\<close>

definition setDirty :: "bool \<Rightarrow> sfitem \<Rightarrow> sfitem" where
  "setDirty d it =
     (let c = (case dirtyCount it of None \<Rightarrow> 0 | Some n \<Rightarrow> n)
      in it\<lparr>dirty := d, dirtyCount := (if d then Some (Suc c) else Some 0)\<rparr>)"

text \<open>\<^verbatim>\<open>X.dirtyCount > 0\<close>; the comparison is false on \<^verbatim>\<open>undefined\<close>.\<close>

definition dirtyCount_positive :: "sfitem \<Rightarrow> bool" where
  "dirtyCount_positive it = (case dirtyCount it of None \<Rightarrow> False | Some n \<Rightarrow> 0 < n)"

text \<open>The fields of an object before its constructor has run.\<close>

definition blank_item :: sfitem where
  "blank_item = \<lparr>uuid = [], content_type = [], references = [], referencingObjects = [],
     created_at = 0, deleted = False, dirty = False, dirtyCount = None, dummy = False,
     errorDecrypting = False\<rparr>"

text \<open>
  The outcome of a call that may throw. The items are mutated in place, so an exception
  leaves the item as it was at the throw; \<open>Thrown\<close> carries that state to the handler.
\<close>

datatype 'a completion = Normal 'a | Thrown 'a

text \<open>JavaScript truthiness of a value that is a string, \<^verbatim>\<open>null\<close> or \<^verbatim>\<open>undefined\<close>.\<close>

definition truthy :: "string option \<Rightarrow> bool" where
  "truthy v = (case v of None \<Rightarrow> False | Some s \<Rightarrow> s \<noteq> [])"

text \<open>\<^verbatim>\<open>value || ""\<close> for a string that may be \<^verbatim>\<open>null\<close> or \<^verbatim>\<open>undefined\<close>.\<close>

definition or_empty :: "string option \<Rightarrow> string" where
  "or_empty v = (case v of None \<Rightarrow> [] | Some s \<Rightarrow> s)"

section \<open>The model store (SFModelManager)\<close>

record missedRef =
  reference_uuid :: string
  for_item :: ref

text \<open>
  The heap of SFItem objects together with the fields of the model manager.
  \<^verbatim>\<open>missedReferences\<close> is a JavaScript object used as a dictionary; its keys are
  enumerated in insertion order, which the association list keeps. New objects are
  allocated at \<open>nextRef\<close>. Two readings of the environment are kept with the store:
  \<open>clock\<close> is what \<^verbatim>\<open>new Date()\<close> returns, and \<open>generateUUID a\<close> is the random
  UUID that the generator returns when asked on behalf of the object at address \<open>a\<close>.
\<close>

record store =
  heap :: "ref \<Rightarrow> sfitem"
  nextRef :: ref
  items :: "ref list"
  itemsHash :: "string \<Rightarrow> ref option"
  missedReferences :: "(string \<times> missedRef) list"
  itemsPendingRemoval :: "string list"
  acceptableContentTypes :: "string list option"
  clock :: int
  generateUUID :: "ref \<Rightarrow> string"

definition upd :: "ref \<Rightarrow> (sfitem \<Rightarrow> sfitem) \<Rightarrow> store \<Rightarrow> store" where
  "upd a f s = s\<lparr>heap := (heap s)(a := f (heap s a))\<rparr>"

text \<open>
  \<^verbatim>\<open>getDirtyItems\<close>:
  \<^verbatim>\<open>item.dirty == true && !item.dummy && (!item.errorDecrypting || item.deleted)\<close>.
\<close>

definition qualifiesForSync :: "sfitem \<Rightarrow> bool" where
  "qualifiesForSync it =
     (dirty it \<and> \<not> dummy it \<and> (\<not> errorDecrypting it \<or> deleted it))"

definition getDirtyItems :: "store \<Rightarrow> ref list" where
  "getDirtyItems s = filter (\<lambda>a. qualifiesForSync (heap s a)) (items s)"

text \<open>\<^verbatim>\<open>clearDirtyItems(items)\<close>: \<^verbatim>\<open>item.setDirty(false)\<close> on each.\<close>

fun clearDirtyItems :: "ref list \<Rightarrow> store \<Rightarrow> store" where
  "clearDirtyItems [] s = s"
| "clearDirtyItems (a # as) s = clearDirtyItems as (upd a (setDirty False) s)"

section \<open>The sync engine (SFSyncManager): dirty bookkeeping\<close>

text \<open>
  The part of \<^verbatim>\<open>sync\<close> that runs before the request is posted: the dirty set is read,
  cut to the submit limit of 100, and every submitted item gets
  \<^verbatim>\<open>item.dirtyCount = 0\<close> (its \<^verbatim>\<open>dirty\<close> flag is left alone). The result is the
  submission batch \<^verbatim>\<open>subItems\<close>, which the success handler closes over, and the store.
\<close>

fun resetDirtyCount :: "ref list \<Rightarrow> store \<Rightarrow> store" where
  "resetDirtyCount [] s = s"
| "resetDirtyCount (a # as) s =
     resetDirtyCount as (upd a (\<lambda>it. it\<lparr>dirtyCount := Some 0\<rparr>) s)"

definition sync :: "store \<Rightarrow> ref list \<times> store" where
  "sync s =
     (let allDirtyItems = getDirtyItems s;
          subItems = take 100 allDirtyItems
      in (subItems, resetDirtyCount subItems s))"

text \<open>
  The head of \<^verbatim>\<open>onSyncSuccess\<close>: the submitted items whose \<^verbatim>\<open>dirtyCount == 0\<close> are
  collected (the comparison is false on \<^verbatim>\<open>undefined\<close>) and handed to
  \<^verbatim>\<open>clearDirtyItems\<close>.
\<close>

definition onSyncSuccess :: "ref list \<Rightarrow> store \<Rightarrow> store" where
  "onSyncSuccess subItems s =
     (let itemsToClearAsDirty = filter (\<lambda>a. dirtyCount (heap s a) = Some 0) subItems
      in clearDirtyItems itemsToClearAsDirty s)"

text \<open>
  The sync manager as a state machine over the calls an application can make: it may mark
  any item dirty or clean, start a sync (ignored while one is in flight, as
  \<^verbatim>\<open>syncOpInProgress\<close> makes the source return early), and the pending request may
  succeed or fail. The error callback only lowers \<^verbatim>\<open>syncOpInProgress\<close>.
\<close>

record engine =
  the_store :: store
  inflight :: "ref list option"

definition api_setDirty :: "ref \<Rightarrow> bool \<Rightarrow> engine \<Rightarrow> engine" where
  "api_setDirty a d e = e\<lparr>the_store := upd a (setDirty d) (the_store e)\<rparr>"

definition api_sync :: "engine \<Rightarrow> engine" where
  "api_sync e =
     (case inflight e of
        Some _ \<Rightarrow> e
      | None \<Rightarrow> (case sync (the_store e) of
                   (subItems, s') \<Rightarrow> \<lparr>the_store = s', inflight = Some subItems\<rparr>))"

definition api_response_success :: "engine \<Rightarrow> engine" where
  "api_response_success e =
     (case inflight e of
        None \<Rightarrow> e
      | Some subItems \<Rightarrow>
          \<lparr>the_store = onSyncSuccess subItems (the_store e), inflight = None\<rparr>)"

definition api_response_error :: "engine \<Rightarrow> engine" where
  "api_response_error e = e\<lparr>inflight := None\<rparr>"

section \<open>SFItem: relationships\<close>

text \<open>
  The methods below mutate \<^verbatim>\<open>this\<close> and sometimes their argument; in the model they
  take the addresses of both and the store, and return the store.
\<close>

text \<open>
  \<^verbatim>\<open>hasRelationshipWithItem(item)\<close>:
  \<^verbatim>\<open>this.content.references.find(r => r.uuid == item.uuid) != null\<close>.
\<close>

definition hasRelationshipWithItem :: "sfitem \<Rightarrow> sfitem \<Rightarrow> bool" where
  "hasRelationshipWithItem this item = (\<exists>r \<in> set (references this). ref_uuid r = uuid item)"

text \<open>\<^verbatim>\<open>removeReferenceWithUuid(uuid)\<close>: the references are filtered into a new array.\<close>

definition removeReferenceWithUuid :: "string \<Rightarrow> sfitem \<Rightarrow> sfitem" where
  "removeReferenceWithUuid u this =
     this\<lparr>references := filter (\<lambda>r. ref_uuid r \<noteq> u) (references this)\<rparr>"

text \<open>
  \<^verbatim>\<open>this.setIsBeingReferencedBy(item)\<close>:
  \<^verbatim>\<open>if(!_.find(this.referencingObjects, {uuid: item.uuid})) this.referencingObjects.push(item)\<close>.
\<close>

definition setIsBeingReferencedBy :: "ref \<Rightarrow> ref \<Rightarrow> store \<Rightarrow> store" where
  "setIsBeingReferencedBy this item s =
     (if \<exists>e \<in> set (referencingObjects (heap s this)). uuid (heap s e) = uuid (heap s item)
      then s
      else upd this (\<lambda>t. t\<lparr>referencingObjects := referencingObjects t @ [item]\<rparr>) s)"

text \<open>
  \<^verbatim>\<open>this.addItemAsRelationship(item)\<close>: the back-reference is installed on
  \<^verbatim>\<open>item\<close>, then, unless \<^verbatim>\<open>this\<close> already references it,
  \<^verbatim>\<open>{uuid: item.uuid, content_type: item.content_type}\<close> is pushed.
\<close>

definition addItemAsRelationship :: "ref \<Rightarrow> ref \<Rightarrow> store \<Rightarrow> store" where
  "addItemAsRelationship this item s =
     (let s1 = setIsBeingReferencedBy item this s
      in if hasRelationshipWithItem (heap s1 this) (heap s1 item) then s1
         else upd this (\<lambda>t. t\<lparr>references := references t @
                [\<lparr>ref_uuid = uuid (heap s1 item),
                  ref_content_type = content_type (heap s1 item)\<rparr>]\<rparr>) s1)"

text \<open>
  \<^verbatim>\<open>this.setIsNoLongerBeingReferencedBy(item)\<close>:
  \<^verbatim>\<open>_.remove(this.referencingObjects, {uuid: item.uuid})\<close> removes in place every
  element with that uuid; a legacy two-way reference is removed too and \<^verbatim>\<open>this\<close> is
  then marked dirty.
\<close>

definition setIsNoLongerBeingReferencedBy :: "ref \<Rightarrow> ref \<Rightarrow> store \<Rightarrow> store" where
  "setIsNoLongerBeingReferencedBy this item s =
     (let s1 = upd this (\<lambda>t. t\<lparr>referencingObjects :=
                  filter (\<lambda>e. uuid (heap s e) \<noteq> uuid (heap s item)) (referencingObjects t)\<rparr>) s
      in if hasRelationshipWithItem (heap s1 this) (heap s1 item)
         then upd this (\<lambda>t. setDirty True (removeReferenceWithUuid (uuid (heap s1 item)) t)) s1
         else s1)"

text \<open>
  \<^verbatim>\<open>this.removeItemAsRelationship(item)\<close>:
  \<^verbatim>\<open>item.setIsNoLongerBeingReferencedBy(this); this.removeReferenceWithUuid(item.uuid)\<close>.
\<close>

definition removeItemAsRelationship :: "ref \<Rightarrow> ref \<Rightarrow> store \<Rightarrow> store" where
  "removeItemAsRelationship this item s =
     (let s1 = setIsNoLongerBeingReferencedBy item this s
      in upd this (removeReferenceWithUuid (uuid (heap s1 item))) s1)"

text \<open>
  \<^verbatim>\<open>potentialItemOfInterestHasChangedItsUUID(newItem, oldUUID, newUUID)\<close>: every
  reference to the old uuid is rewritten in place, and each rewrite calls
  \<^verbatim>\<open>setDirty(true)\<close>.
\<close>

fun rewriteReferences :: "string \<Rightarrow> string \<Rightarrow> reference list \<Rightarrow> reference list \<times> nat" where
  "rewriteReferences oldUUID newUUID [] = ([], 0)"
| "rewriteReferences oldUUID newUUID (r # rs) =
     (case rewriteReferences oldUUID newUUID rs of
        (rs', n) \<Rightarrow>
          if ref_uuid r = oldUUID then (r\<lparr>ref_uuid := newUUID\<rparr> # rs', Suc n)
          else (r # rs', n))"

definition potentialItemOfInterestHasChangedItsUUID :: "string \<Rightarrow> string \<Rightarrow> sfitem \<Rightarrow> sfitem" where
  "potentialItemOfInterestHasChangedItsUUID oldUUID newUUID this =
     (case rewriteReferences oldUUID newUUID (references this) of
        (rs', n) \<Rightarrow> ((setDirty True) ^^ n) (this\<lparr>references := rs'\<rparr>))"

section \<open>SFItem: construction from a record\<close>

text \<open>
  A record as the mapper receives it, after JSON parsing: a server or disk record, or an
  SFItem object handed back to the mapper. A key that is absent is \<open>None\<close>; the content
  is absent, a string that does not parse (the ciphertext of a record that failed to
  decrypt), or an object, of which the model keeps the \<^verbatim>\<open>references\<close> array (itself
  possibly absent).
\<close>

datatype jo_content = NoContentField | OpaqueContent string | ObjectContent "reference list option"

record json_obj =
  jo_uuid :: "string option"
  jo_content_type :: "string option"
  jo_content :: jo_content
  jo_deleted :: bool
  jo_dirty :: "bool option"
  jo_dirtyCount :: "nat option"
  jo_errorDecrypting :: "bool option"
  jo_created_at :: "int option"

text \<open>\<^verbatim>\<open>!json_obj.content\<close>.\<close>

definition content_truthy :: "jo_content \<Rightarrow> bool" where
  "content_truthy c =
     (case c of NoContentField \<Rightarrow> False | OpaqueContent str \<Rightarrow> str \<noteq> [] | ObjectContent _ \<Rightarrow> True)"

text \<open>An SFItem object read as a record (the mapper and \<^verbatim>\<open>createItem\<close> accept both).\<close>

definition as_json :: "sfitem \<Rightarrow> json_obj" where
  "as_json it =
     \<lparr>jo_uuid = Some (uuid it), jo_content_type = Some (content_type it),
      jo_content = ObjectContent (Some (references it)), jo_deleted = deleted it,
      jo_dirty = Some (dirty it), jo_dirtyCount = dirtyCount it,
      jo_errorDecrypting = Some (errorDecrypting it), jo_created_at = Some (created_at it)\<rparr>"

text \<open>
  \<^verbatim>\<open>updateFromJSON(json)\<close>: the top-level fields are overwritten, the client-only keys
  (\<^verbatim>\<open>errorDecrypting\<close>, \<^verbatim>\<open>dirty\<close>, \<^verbatim>\<open>dirtyCount\<close>) only when the record has them,
  the content type only when the item has none, and the content is deep-merged, where an
  array such as \<^verbatim>\<open>references\<close> replaces the item's wholesale. A missing
  \<^verbatim>\<open>created_at\<close> becomes the current time.
\<close>

definition updateFromJSON :: "int \<Rightarrow> json_obj \<Rightarrow> sfitem \<Rightarrow> sfitem" where
  "updateFromJSON now json this =
     this\<lparr>created_at := (case jo_created_at json of None \<Rightarrow> now | Some t \<Rightarrow> t),
          deleted := jo_deleted json,
          uuid := or_empty (jo_uuid json),
          errorDecrypting :=
            (case jo_errorDecrypting json of None \<Rightarrow> errorDecrypting this | Some e \<Rightarrow> e),
          dirty := (case jo_dirty json of None \<Rightarrow> dirty this | Some d \<Rightarrow> d),
          dirtyCount := (case jo_dirtyCount json of None \<Rightarrow> dirtyCount this | Some n \<Rightarrow> Some n),
          content_type :=
            (if content_type this = [] then or_empty (jo_content_type json)
             else content_type this),
          references :=
            (case jo_content json of
               ObjectContent (Some rs) \<Rightarrow> rs
             | _ \<Rightarrow> references this)\<rparr>"

text \<open>
  \<^verbatim>\<open>new SFItem(json_obj)\<close>: empty content and back-references, \<^verbatim>\<open>updateFromJSON\<close>,
  a generated uuid when the record has none, and an empty \<^verbatim>\<open>references\<close> array when
  the content has none.
\<close>

definition new_SFItem :: "int \<Rightarrow> string \<Rightarrow> json_obj \<Rightarrow> sfitem" where
  "new_SFItem now generated json =
     (let this = updateFromJSON now json blank_item
      in this\<lparr>uuid := (if uuid this = [] then generated else uuid this)\<rparr>)"

section \<open>SFModelManager: the item index\<close>

text \<open>\<^verbatim>\<open>findItem(itemId)\<close>: \<^verbatim>\<open>this.itemsHash[itemId]\<close>; nothing is stored under \<^verbatim>\<open>undefined\<close>.\<close>

definition findItem :: "store \<Rightarrow> string option \<Rightarrow> ref option" where
  "findItem s itemId = (case itemId of None \<Rightarrow> None | Some u \<Rightarrow> itemsHash s u)"

text \<open>\<^verbatim>\<open>allItems\<close>: the items that are not dummies.\<close>

definition allItems :: "store \<Rightarrow> ref list" where
  "allItems s = filter (\<lambda>a. \<not> dummy (heap s a)) (items s)"

text \<open>
  \<^verbatim>\<open>addItem(item)\<close>: the item is indexed and appended unless its uuid is already indexed.
\<close>

definition addItem :: "ref \<Rightarrow> store \<Rightarrow> store" where
  "addItem a s =
     (case itemsHash s (uuid (heap s a)) of
        Some _ \<Rightarrow> s
      | None \<Rightarrow> s\<lparr>itemsHash := (itemsHash s)(uuid (heap s a) := Some a),
                  items := items s @ [a]\<rparr>)"

text \<open>
  \<^verbatim>\<open>removeItemLocally(item)\<close>: every listed item with that uuid is removed from
  \<^verbatim>\<open>items\<close>, the uuid is unindexed and pushed onto \<^verbatim>\<open>itemsPendingRemoval\<close>.
\<close>

definition removeItemLocally :: "ref \<Rightarrow> store \<Rightarrow> store" where
  "removeItemLocally a s =
     s\<lparr>items := filter (\<lambda>b. uuid (heap s b) \<noteq> uuid (heap s a)) (items s),
        itemsHash := (itemsHash s)(uuid (heap s a) := None),
        itemsPendingRemoval := itemsPendingRemoval s @ [uuid (heap s a)]\<rparr>"

text \<open>
  \<^verbatim>\<open>createItem(json_obj)\<close>: a new object at the next free address. (The sync observers
  that \<^verbatim>\<open>createItem\<close> and the mapper notify run later, from a timeout, and are not part
  of the model.)
\<close>

definition createItem :: "json_obj \<Rightarrow> store \<Rightarrow> ref \<times> store" where
  "createItem json s =
     (let a = nextRef s
      in (a, s\<lparr>heap := (heap s)(a := new_SFItem (clock s) (generateUUID s a) json),
               nextRef := Suc a\<rparr>))"

section \<open>SFModelManager: resolving references\<close>

text \<open>\<^verbatim>\<open>missedReferenceBuildKey(referenceId, objectId)\<close>.\<close>

definition missedReferenceBuildKey :: "string \<Rightarrow> string \<Rightarrow> string" where
  "missedReferenceBuildKey referenceId objectId = referenceId @ '':'' @ objectId"

text \<open>
  \<^verbatim>\<open>resolveReferencesForItem(item, markReferencesDirty)\<close>. The referenced items are
  looked up first, all at once (\<^verbatim>\<open>findItems(referencesIds, true)\<close>); then each found
  one becomes a relationship and each missing one is entered in the missed-references
  table under \<^verbatim>\<open>reference_uuid:item_uuid\<close> unless the key is taken.
\<close>

definition resolveReference ::
  "ref \<Rightarrow> bool \<Rightarrow> string \<times> ref option \<Rightarrow> store \<Rightarrow> store" where
  "resolveReference item markReferencesDirty lookup s =
     (case lookup of
        (_, Some referencedItem) \<Rightarrow>
          (let s1 = addItemAsRelationship item referencedItem s
           in if markReferencesDirty then upd referencedItem (setDirty True) s1 else s1)
      | (missingRefId, None) \<Rightarrow>
          (let mappingKey = missedReferenceBuildKey missingRefId (uuid (heap s item))
           in if mappingKey \<in> fst ` set (missedReferences s) then s
              else s\<lparr>missedReferences := missedReferences s @
                     [(mappingKey, \<lparr>reference_uuid = missingRefId, for_item = item\<rparr>)]\<rparr>))"

definition resolveReferencesForItem :: "ref \<Rightarrow> bool \<Rightarrow> store \<Rightarrow> store" where
  "resolveReferencesForItem item markReferencesDirty s =
     (let referencesIds = map ref_uuid (references (heap s item));
          referencesObjectResults = map (\<lambda>u. itemsHash s u) referencesIds
      in fold (resolveReference item markReferencesDirty)
           (zip referencesIds referencesObjectResults) s)"

text \<open>
  \<^verbatim>\<open>popMissedReferenceStructsForObjects(objects)\<close>: the entries whose key starts with the
  uuid of one of the objects are returned and deleted. The prefix of a key is cut at the
  length of the first object's uuid (\<^verbatim>\<open>uuids[0].length\<close>), which throws a TypeError
  when that uuid is \<^verbatim>\<open>undefined\<close>.
\<close>

definition popMissedReferenceStructsForObjects ::
  "json_obj list \<Rightarrow> store \<Rightarrow> (missedRef list \<times> store) option" where
  "popMissedReferenceStructsForObjects objects s =
     (case objects of
        [] \<Rightarrow> Some ([], s)
      | first # _ \<Rightarrow>
          (case jo_uuid first of
             None \<Rightarrow> None
           | Some u0 \<Rightarrow>
               (let uuids = map jo_uuid objects;
                    genericUuidLength = length u0;
                    matches = (\<lambda>candidateKey. Some (take genericUuidLength candidateKey) \<in> set uuids)
                in Some (map snd (filter (\<lambda>e. matches (fst e)) (missedReferences s)),
                         s\<lparr>missedReferences :=
                             filter (\<lambda>e. \<not> matches (fst e)) (missedReferences s)\<rparr>))))"

section \<open>SFModelManager: mapping records into the store\<close>

text \<open>The manual \<^verbatim>\<open>delete json_obj[key]\<close> for each key of \<^verbatim>\<open>omitFields\<close>.\<close>

definition omit :: "string list \<Rightarrow> json_obj \<Rightarrow> json_obj" where
  "omit ks json =
     \<lparr>jo_uuid = (if ''uuid'' \<in> set ks then None else jo_uuid json),
      jo_content_type = (if ''content_type'' \<in> set ks then None else jo_content_type json),
      jo_content = (if ''content'' \<in> set ks then NoContentField else jo_content json),
      jo_deleted = (if ''deleted'' \<in> set ks then False else jo_deleted json),
      jo_dirty = (if ''dirty'' \<in> set ks then None else jo_dirty json),
      jo_dirtyCount = (if ''dirtyCount'' \<in> set ks then None else jo_dirtyCount json),
      jo_errorDecrypting =
        (if ''errorDecrypting'' \<in> set ks then None else jo_errorDecrypting json),
      jo_created_at = (if ''created_at'' \<in> set ks then None else jo_created_at json)\<rparr>"

text \<open>
  The test that skips a corrupt record:
  \<^verbatim>\<open>(!content_type || !content || !uuid) && !deleted && !errorDecrypting\<close>.
\<close>

definition corrupt :: "json_obj \<Rightarrow> bool" where
  "corrupt json =
     ((\<not> truthy (jo_content_type json) \<or> \<not> content_truthy (jo_content json) \<or>
       \<not> truthy (jo_uuid json)) \<and>
      \<not> jo_deleted json \<and> jo_errorDecrypting json \<noteq> Some True)"

text \<open>
  One round of the first loop of \<^verbatim>\<open>mapResponseItemsToLocalModelsOmittingFields\<close>. The
  state is the store with the arrays \<^verbatim>\<open>models\<close> and \<^verbatim>\<open>processedObjects\<close>.
\<close>

definition mapRecord ::
  "string list option \<Rightarrow> json_obj \<Rightarrow> store \<times> ref list \<times> json_obj list
     \<Rightarrow> store \<times> ref list \<times> json_obj list" where
  "mapRecord omitFields json0 st =
     (case st of (s, models, processedObjects) \<Rightarrow>
        if corrupt json0 then st
        else
          (let json = (case omitFields of None \<Rightarrow> json0 | Some ks \<Rightarrow> omit ks json0);
               item = findItem s (jo_uuid json);
               s1 = (case item of
                       None \<Rightarrow> s
                     | Some a \<Rightarrow> upd a (\<lambda>t. (updateFromJSON (clock s) json t)\<lparr>dummy := False\<rparr>) s)
           in if (case jo_uuid json of None \<Rightarrow> False
                  | Some u \<Rightarrow> u \<in> set (itemsPendingRemoval s1))
              then (s1\<lparr>itemsPendingRemoval :=
                         removeAll (or_empty (jo_uuid json)) (itemsPendingRemoval s1)\<rparr>,
                    models, processedObjects)
              else
                (let contentType =
                       (if truthy (jo_content_type json) then or_empty (jo_content_type json)
                        else (case item of None \<Rightarrow> [] | Some a \<Rightarrow> content_type (heap s1 a)));
                     unknownContentType =
                       (case acceptableContentTypes s1 of
                          None \<Rightarrow> False
                        | Some types \<Rightarrow> contentType \<notin> set types)
                 in if unknownContentType then (s1, models, processedObjects)
                    else if jo_deleted json \<and> jo_dirty json \<noteq> Some True
                    then (case item of
                            None \<Rightarrow> (s1, models, processedObjects)
                          | Some a \<Rightarrow> (removeItemLocally a s1, models, processedObjects))
                    else
                      (case (case item of
                               None \<Rightarrow> createItem json s1
                             | Some a \<Rightarrow> (a, s1)) of
                         (a, s2) \<Rightarrow>
                           (addItem a s2, models @ [a], processedObjects @ [json])))))"

text \<open>
  The second loop: the references of every mapped record that had content are resolved.
\<close>

definition resolveMapped :: "ref \<times> json_obj \<Rightarrow> store \<Rightarrow> store" where
  "resolveMapped mj s =
     (case mj of (model, json) \<Rightarrow>
        if content_truthy (jo_content json) then resolveReferencesForItem model False s else s)"

text \<open>
  \<^verbatim>\<open>mapResponseItemsToLocalModelsOmittingFields(items, omitFields, source)\<close>. After the
  two loops the missed references of the mapped uuids are popped, and for each of them
  \<^verbatim>\<open>ref.for_item.addItemAsRelationship(model)\<close> runs, where \<^verbatim>\<open>model\<close> is the variable
  of the second loop: declared with \<^verbatim>\<open>var\<close>, it still holds the last mapped item. The
  result is the array \<^verbatim>\<open>models\<close> and the store; \<open>Thrown\<close> is the TypeError of the
  pop, with the store as the loops left it.
\<close>

definition mapResponseItemsToLocalModelsOmittingFields ::
  "json_obj list \<Rightarrow> string list option \<Rightarrow> store \<Rightarrow> (ref list \<times> store) completion" where
  "mapResponseItemsToLocalModelsOmittingFields recs omitFields s =
     (case fold (mapRecord omitFields) recs (s, [], []) of
        (s1, models, processedObjects) \<Rightarrow>
          (let s2 = fold resolveMapped (zip models processedObjects) s1
           in case popMissedReferenceStructsForObjects processedObjects s2 of
                None \<Rightarrow> Thrown (models, s2)
              | Some (missedRefs, s3) \<Rightarrow>
                  Normal (models,
                    fold (\<lambda>r. addItemAsRelationship (for_item r) (last models)) missedRefs s3)))"

definition mapResponseItemsToLocalModels ::
  "json_obj list \<Rightarrow> store \<Rightarrow> (ref list \<times> store) completion" where
  "mapResponseItemsToLocalModels recs s =
     mapResponseItemsToLocalModelsOmittingFields recs None s"

section \<open>SFModelManager: UUID alternation\<close>

text \<open>
  \<^verbatim>\<open>informModelsOfUUIDChangeForItem(newItem, oldUUID, newUUID)\<close>: every listed item is
  told. (The loop does not change \<^verbatim>\<open>this.items\<close>.)
\<close>

definition informModelsOfUUIDChangeForItem :: "string \<Rightarrow> string \<Rightarrow> store \<Rightarrow> store" where
  "informModelsOfUUIDChangeForItem oldUUID newUUID s =
     fold (\<lambda>model. upd model (potentialItemOfInterestHasChangedItsUUID oldUUID newUUID))
       (items s) s"

text \<open>
  One round of the loop \<^verbatim>\<open>for(referencingObject of item.referencingObjects)\<close> of
  \<^verbatim>\<open>alternateUUIDForItem\<close>:
  \<^verbatim>\<open>referencingObject.setIsNoLongerBeingReferencedBy(item);
  referencingObject.addItemAsRelationship(newItem); referencingObject.setDirty(true)\<close>.
\<close>

definition inheritRelationship :: "ref \<Rightarrow> ref \<Rightarrow> ref \<Rightarrow> store \<Rightarrow> store" where
  "inheritRelationship item newItem referencingObject s =
     upd referencingObject (setDirty True)
       (addItemAsRelationship referencingObject newItem
          (setIsNoLongerBeingReferencedBy referencingObject item s))"

text \<open>
  The loop runs over the live array \<^verbatim>\<open>item.referencingObjects\<close>, which its body
  filters and extends. It ends because a round never makes that array longer; the
  facts below are what the termination proof needs.
\<close>

lemma heap_upd: "heap (upd a f s) b = (if b = a then f (heap s a) else heap s b)"
  by (simp add: upd_def)

lemma uuid_setDirty [simp]: "uuid (setDirty d t) = uuid t"
  by (simp add: setDirty_def Let_def)

lemma referencingObjects_setDirty [simp]: "referencingObjects (setDirty d t) = referencingObjects t"
  by (simp add: setDirty_def Let_def)

lemma references_setDirty [simp]: "references (setDirty d t) = references t"
  by (simp add: setDirty_def Let_def)

lemma uuid_removeReferenceWithUuid [simp]: "uuid (removeReferenceWithUuid u t) = uuid t"
  by (simp add: removeReferenceWithUuid_def)

lemma referencingObjects_removeReferenceWithUuid [simp]:
  "referencingObjects (removeReferenceWithUuid u t) = referencingObjects t"
  by (simp add: removeReferenceWithUuid_def)

text \<open>How the relationship methods change the back-references and leave the uuids.\<close>

lemma uuid_setIsNoLongerBeingReferencedBy [simp]:
  "uuid (heap (setIsNoLongerBeingReferencedBy this item s) b) = uuid (heap s b)"
  by (simp add: setIsNoLongerBeingReferencedBy_def Let_def heap_upd)

lemma referencingObjects_setIsNoLongerBeingReferencedBy:
  "referencingObjects (heap (setIsNoLongerBeingReferencedBy this item s) b) =
     (if b = this
      then filter (\<lambda>e. uuid (heap s e) \<noteq> uuid (heap s item)) (referencingObjects (heap s b))
      else referencingObjects (heap s b))"
  by (simp add: setIsNoLongerBeingReferencedBy_def Let_def heap_upd)

lemma uuid_setIsBeingReferencedBy [simp]:
  "uuid (heap (setIsBeingReferencedBy this item s) b) = uuid (heap s b)"
  by (simp add: setIsBeingReferencedBy_def heap_upd)

lemma referencingObjects_setIsBeingReferencedBy:
  "referencingObjects (heap (setIsBeingReferencedBy this item s) b) =
     (if b = this \<and> \<not> (\<exists>e \<in> set (referencingObjects (heap s this)).
                           uuid (heap s e) = uuid (heap s item))
      then referencingObjects (heap s b) @ [item]
      else referencingObjects (heap s b))"
  by (simp add: setIsBeingReferencedBy_def heap_upd)

lemma uuid_addItemAsRelationship [simp]:
  "uuid (heap (addItemAsRelationship this item s) b) = uuid (heap s b)"
  by (simp add: addItemAsRelationship_def Let_def heap_upd)

lemma referencingObjects_addItemAsRelationship:
  "referencingObjects (heap (addItemAsRelationship this item s) b) =
     referencingObjects (heap (setIsBeingReferencedBy item this s) b)"
  by (simp add: addItemAsRelationship_def Let_def heap_upd)

lemma uuid_removeItemAsRelationship [simp]:
  "uuid (heap (removeItemAsRelationship this item s) b) = uuid (heap s b)"
  by (simp add: removeItemAsRelationship_def Let_def heap_upd)

lemma referencingObjects_removeItemAsRelationship:
  "referencingObjects (heap (removeItemAsRelationship this item s) b) =
     referencingObjects (heap (setIsNoLongerBeingReferencedBy item this s) b)"
  by (simp add: removeItemAsRelationship_def Let_def heap_upd)

lemma length_inheritRelationship:
  assumes "r \<in> set (referencingObjects (heap s item))"
  shows "length (referencingObjects (heap (inheritRelationship item newItem r s) item)) \<le>
           length (referencingObjects (heap s item))"
proof (cases "r = item")
  case True
  let ?arr = "referencingObjects (heap s item)"
  let ?f = "filter (\<lambda>e. uuid (heap s e) \<noteq> uuid (heap s item)) ?arr"
  have "length ?f < length ?arr"
    using assms True by (intro length_filter_less [of item]) auto
  then show ?thesis
    unfolding inheritRelationship_def
    by (auto simp: heap_upd referencingObjects_addItemAsRelationship
        referencingObjects_setIsBeingReferencedBy
        referencingObjects_setIsNoLongerBeingReferencedBy True)
next
  case False
  then show ?thesis
    unfolding inheritRelationship_def
    using assms
    by (auto simp: heap_upd referencingObjects_addItemAsRelationship
        referencingObjects_setIsBeingReferencedBy
        referencingObjects_setIsNoLongerBeingReferencedBy)
qed

function inheritRelationships :: "ref \<Rightarrow> ref \<Rightarrow> nat \<Rightarrow> store \<Rightarrow> store" where
  "inheritRelationships item newItem i s =
     (if i < length (referencingObjects (heap s item))
      then inheritRelationships item newItem (Suc i)
             (inheritRelationship item newItem (referencingObjects (heap s item) ! i) s)
      else s)"
  by pat_completeness auto
termination
proof (relation "measure (\<lambda>(item, newItem, i, s). length (referencingObjects (heap s item)) - i)")
  show "wf (measure (\<lambda>(item, newItem, i, s). length (referencingObjects (heap s item)) - i))"
    by simp
next
  fix item newItem :: ref and i :: nat and s :: store
  assume i: "i < length (referencingObjects (heap s item))"
  from length_inheritRelationship [of "referencingObjects (heap s item) ! i" s item newItem] i
  have "length (referencingObjects (heap (inheritRelationship item newItem
           (referencingObjects (heap s item) ! i) s) item)) \<le>
        length (referencingObjects (heap s item))"
    by simp
  with i show "((item, newItem, Suc i,
           inheritRelationship item newItem (referencingObjects (heap s item) ! i) s),
          item, newItem, i, s)
         \<in> measure (\<lambda>(item, newItem, i, s). length (referencingObjects (heap s item)) - i)"
    by simp
qed

declare inheritRelationships.simps [simp del]

text \<open>
  \<^verbatim>\<open>alternateUUIDForItem(item)\<close>. The clone is a new object built from the item, with
  the generated uuid. \<^verbatim>\<open>informReferencesOfUUIDChange\<close> is an empty method of SFItem, and
  the uuid-change observers that the method calls last are the application's: neither
  is part of the model. \<open>Thrown\<close> is an exception of the mapper.
\<close>

definition alternateUUIDForItem :: "ref \<Rightarrow> store \<Rightarrow> (ref \<times> store) completion" where
  "alternateUUIDForItem item s =
     (case createItem (as_json (heap s item)) s of
        (newItem, s1) \<Rightarrow>
          (let s2 = upd newItem (\<lambda>t. t\<lparr>uuid := generateUUID s1 newItem\<rparr>) s1;
               s3 = informModelsOfUUIDChangeForItem (uuid (heap s2 item)) (uuid (heap s2 newItem)) s2;
               s4 = inheritRelationships item newItem 0 s3;
               s5 = upd item (\<lambda>t. setDirty False (t\<lparr>deleted := True, references := []\<rparr>)) s4
           in case mapResponseItemsToLocalModels [as_json (heap s5 item)] s5 of
                Thrown (_, s6) \<Rightarrow> Thrown (newItem, s6)
              | Normal (_, s6) \<Rightarrow>
                  Normal (newItem, upd newItem (setDirty True) (addItem newItem s6))))"

section \<open>SFModelManager: marking an item for deletion\<close>

text \<open>
  The first loop of \<^verbatim>\<open>removeAndDirtyAllRelationshipsForItem\<close>, over the references of
  the item. The loop body replaces \<^verbatim>\<open>item.content.references\<close> by a filtered copy, so
  the iteration runs over the array as it was when the loop started.
\<close>

definition removeDirectRelationship :: "ref \<Rightarrow> reference \<Rightarrow> store \<Rightarrow> store" where
  "removeDirectRelationship item reference s =
     (case findItem s (Some (ref_uuid reference)) of
        None \<Rightarrow> s
      | Some relationship \<Rightarrow>
          (let s1 = removeItemAsRelationship item relationship s
           in if hasRelationshipWithItem (heap s1 relationship) (heap s1 item)
              then upd relationship (setDirty True) (removeItemAsRelationship relationship item s1)
              else s1))"

text \<open>
  One round of the second loop, over \<^verbatim>\<open>item.referencingObjects\<close>:
  \<^verbatim>\<open>object.removeItemAsRelationship(item); object.setDirty(true)\<close>.
\<close>

definition removeIndirectRelationship :: "ref \<Rightarrow> ref \<Rightarrow> store \<Rightarrow> store" where
  "removeIndirectRelationship item object s =
     upd object (setDirty True) (removeItemAsRelationship object item s)"

lemma length_removeIndirectRelationship:
  "length (referencingObjects (heap (removeIndirectRelationship item object s) item)) \<le>
     length (referencingObjects (heap s item))"
  unfolding removeIndirectRelationship_def
  by (simp add: heap_upd referencingObjects_removeItemAsRelationship
      referencingObjects_setIsNoLongerBeingReferencedBy)

text \<open>The second loop, again over the live array.\<close>

function removeIndirectRelationships :: "ref \<Rightarrow> nat \<Rightarrow> store \<Rightarrow> store" where
  "removeIndirectRelationships item i s =
     (if i < length (referencingObjects (heap s item))
      then removeIndirectRelationships item (Suc i)
             (removeIndirectRelationship item (referencingObjects (heap s item) ! i) s)
      else s)"
  by pat_completeness auto
termination
proof (relation "measure (\<lambda>(item, i, s). length (referencingObjects (heap s item)) - i)")
  show "wf (measure (\<lambda>(item, i, s). length (referencingObjects (heap s item)) - i))"
    by simp
next
  fix item :: ref and i :: nat and s :: store
  assume i: "i < length (referencingObjects (heap s item))"
  from length_removeIndirectRelationship [of item "referencingObjects (heap s item) ! i" s] i
  show "((item, Suc i,
           removeIndirectRelationship item (referencingObjects (heap s item) ! i) s),
          item, i, s)
         \<in> measure (\<lambda>(item, i, s). length (referencingObjects (heap s item)) - i)"
    by simp
qed

declare removeIndirectRelationships.simps [simp del]

definition removeAndDirtyAllRelationshipsForItem :: "ref \<Rightarrow> store \<Rightarrow> store" where
  "removeAndDirtyAllRelationshipsForItem item s =
     (let s1 = fold (removeDirectRelationship item) (references (heap s item)) s;
          s2 = removeIndirectRelationships item 0 s1
      in upd item (\<lambda>t. t\<lparr>referencingObjects := []\<rparr>) s2)"

text \<open>\<^verbatim>\<open>setItemToBeDeleted(item)\<close>.\<close>

definition setItemToBeDeleted :: "ref \<Rightarrow> store \<Rightarrow> store" where
  "setItemToBeDeleted item s =
     (let s1 = upd item (\<lambda>t. t\<lparr>deleted := True\<rparr>) s;
          s2 = (if \<not> dummy (heap s1 item) then upd item (setDirty True) s1 else s1)
      in removeAndDirtyAllRelationshipsForItem item s2)"

section \<open>The states an application can reach\<close>

text \<open>
  Besides marking items and running sync cycles, an application can hand records to the
  mapper and construct items from records. Both go through \<^verbatim>\<open>updateFromJSON\<close>, which
  copies the client keys \<^verbatim>\<open>dirty\<close> and \<^verbatim>\<open>dirtyCount\<close> from the record when the record
  has them, each on its own. It can also mark an item for deletion, remove it locally and
  alternate its uuid. Where a call may throw, the store is the one the throw leaves.
\<close>

definition api_mapResponseItems ::
  "json_obj list \<Rightarrow> string list option \<Rightarrow> engine \<Rightarrow> engine" where
  "api_mapResponseItems recs omitFields e =
     e\<lparr>the_store :=
         (case mapResponseItemsToLocalModelsOmittingFields recs omitFields (the_store e) of
            Normal (_, s) \<Rightarrow> s
          | Thrown (_, s) \<Rightarrow> s)\<rparr>"

definition api_createItem :: "json_obj \<Rightarrow> engine \<Rightarrow> engine" where
  "api_createItem json e = e\<lparr>the_store := snd (createItem json (the_store e))\<rparr>"

definition api_addItem :: "ref \<Rightarrow> engine \<Rightarrow> engine" where
  "api_addItem a e = e\<lparr>the_store := addItem a (the_store e)\<rparr>"

definition api_setItemToBeDeleted :: "ref \<Rightarrow> engine \<Rightarrow> engine" where
  "api_setItemToBeDeleted a e = e\<lparr>the_store := setItemToBeDeleted a (the_store e)\<rparr>"

definition api_removeItemLocally :: "ref \<Rightarrow> engine \<Rightarrow> engine" where
  "api_removeItemLocally a e = e\<lparr>the_store := removeItemLocally a (the_store e)\<rparr>"

definition api_alternateUUIDForItem :: "ref \<Rightarrow> engine \<Rightarrow> engine" where
  "api_alternateUUIDForItem a e =
     e\<lparr>the_store :=
         (case alternateUUIDForItem a (the_store e) of
            Normal (_, s) \<Rightarrow> s
          | Thrown (_, s) \<Rightarrow> s)\<rparr>"

text \<open>
  What a record says about the two keys is consistent with the dirty tracking when it is
  silent on both, or says \<^verbatim>\<open>dirty: true\<close>, or says \<^verbatim>\<open>dirtyCount: 0\<close>. Server records
  are silent on both; the records of local storage carry \<^verbatim>\<open>dirty\<close> and never
  \<^verbatim>\<open>dirtyCount\<close>. For the mapper the record is read after the keys of \<^verbatim>\<open>omitFields\<close>
  have been deleted from it.
\<close>

definition keeps_dirty_tracking :: "json_obj \<Rightarrow> bool" where
  "keeps_dirty_tracking json =
     (jo_dirty json = Some True \<or> jo_dirtyCount json = Some 0 \<or>
      (jo_dirty json = None \<and> jo_dirtyCount json = None))"

definition omitted :: "string list option \<Rightarrow> json_obj \<Rightarrow> json_obj" where
  "omitted omitFields json = (case omitFields of None \<Rightarrow> json | Some ks \<Rightarrow> omit ks json)"

text \<open>
  The states reached from a store in which no item carries a \<^verbatim>\<open>dirtyCount\<close> yet (the
  constructor of SFItem does not set it) by marking items dirty or clean, starting a sync,
  receiving its response, mapping or constructing from records that are consistent with
  the dirty tracking, adding an item to the index, marking an item for deletion, removing
  it locally, and alternating its uuid.
\<close>

inductive reachable :: "engine \<Rightarrow> bool" where
  loaded: "(\<And>a. dirtyCount (heap s a) = None) \<Longrightarrow> reachable \<lparr>the_store = s, inflight = None\<rparr>"
| step_setDirty: "reachable e \<Longrightarrow> reachable (api_setDirty a d e)"
| step_sync: "reachable e \<Longrightarrow> reachable (api_sync e)"
| step_success: "reachable e \<Longrightarrow> reachable (api_response_success e)"
| step_error: "reachable e \<Longrightarrow> reachable (api_response_error e)"
| step_map:
    "reachable e \<Longrightarrow> list_all (\<lambda>json. keeps_dirty_tracking (omitted omitFields json)) recs \<Longrightarrow>
     reachable (api_mapResponseItems recs omitFields e)"
| step_createItem:
    "reachable e \<Longrightarrow> keeps_dirty_tracking json \<Longrightarrow> reachable (api_createItem json e)"
| step_addItem: "reachable e \<Longrightarrow> reachable (api_addItem a e)"
| step_setItemToBeDeleted: "reachable e \<Longrightarrow> reachable (api_setItemToBeDeleted a e)"
| step_removeItemLocally: "reachable e \<Longrightarrow> reachable (api_removeItemLocally a e)"
| step_alternateUUID: "reachable e \<Longrightarrow> reachable (api_alternateUUIDForItem a e)"

section \<open>The singleton resolver (SFSingletonManager)\<close>

text \<open>
  A registered handler. A predicate \<^verbatim>\<open>[keypath, operator, value]\<close> is modelled by the
  function that \<^verbatim>\<open>SFPredicate.ItemSatisfiesPredicate\<close> computes from it; of the two
  callbacks the model records whether they were given.
\<close>

record singletonHandler =
  predicates :: "(sfitem \<Rightarrow> bool) list"
  singleton :: "ref option"
  pendingCreateBlockCallback :: bool
  resolutionCallback :: bool
  createBlock :: bool

text \<open>
  The singleton manager with a log of the calls it makes to its collaborators: the
  number of \<^verbatim>\<open>syncManager.sync()\<close> calls (what a sync does belongs to the sync engine),
  the \<^verbatim>\<open>resolutionCallback(item)\<close> calls with the index of the handler, and the
  \<^verbatim>\<open>createBlock\<close> calls.
\<close>

record singletonManager =
  singletonHandlers :: "singletonHandler list"
  syncCalls :: nat
  resolutionCalls :: "(nat \<times> ref) list"
  createBlockCalls :: "nat list"

text \<open>\<^verbatim>\<open>filterItemsWithPredicates(items, predicates)\<close> and \<^verbatim>\<open>itemsMatchingPredicates\<close>.\<close>

definition filterItemsWithPredicates ::
  "store \<Rightarrow> ref list \<Rightarrow> (sfitem \<Rightarrow> bool) list \<Rightarrow> ref list" where
  "filterItemsWithPredicates s its preds = filter (\<lambda>a. list_all (\<lambda>p. p (heap s a)) preds) its"

definition itemsMatchingPredicates :: "store \<Rightarrow> (sfitem \<Rightarrow> bool) list \<Rightarrow> ref list" where
  "itemsMatchingPredicates s preds = filterItemsWithPredicates s (allItems s) preds"

text \<open>
  The compare function handed to \<^verbatim>\<open>sort\<close>:
  \<^verbatim>\<open>a.created_at < b.created_at ? -1 : 1\<close>.
\<close>

definition created_at_compare :: "store \<Rightarrow> ref \<Rightarrow> ref \<Rightarrow> int" where
  "created_at_compare s a b = (if created_at (heap s a) < created_at (heap s b) then - 1 else 1)"

text \<open>
  The body of the loop of \<^verbatim>\<open>resolveSingletons\<close> for the handler at index \<open>i\<close>.
  \<^verbatim>\<open>Array.prototype.sort\<close> is the engine's and is passed in as \<open>array_sort\<close>: the
  compare function above never returns 0, so the order of items created at the same
  time is the engine's choice.
\<close>

definition notifyResolution :: "nat \<Rightarrow> ref \<Rightarrow> singletonManager \<Rightarrow> singletonManager" where
  "notifyResolution i winner m =
     m\<lparr>singletonHandlers :=
          (singletonHandlers m)[i := (singletonHandlers m ! i)\<lparr>singleton := Some winner\<rparr>],
       resolutionCalls :=
          resolutionCalls m @
            (if resolutionCallback (singletonHandlers m ! i) then [(i, winner)] else [])\<rparr>"

definition resolveHandler ::
  "((ref \<Rightarrow> ref \<Rightarrow> int) \<Rightarrow> ref list \<Rightarrow> ref list) \<Rightarrow> ref list \<Rightarrow> ref list \<Rightarrow> bool \<Rightarrow> nat
     \<Rightarrow> store \<times> singletonManager \<Rightarrow> store \<times> singletonManager" where
  "resolveHandler array_sort retrievedItems savedItems initialLoad i st =
     (case st of (s, m) \<Rightarrow>
        (let singletonHandler = singletonHandlers m ! i;
             retrievedSingletonItems =
               filterItemsWithPredicates s retrievedItems (predicates singletonHandler);
             savedSingletonItemsCount =
               length (filterItemsWithPredicates s savedItems (predicates singletonHandler))
         in if 0 < length retrievedSingletonItems \<or> 0 < savedSingletonItemsCount
            then
              (let allExtantItemsMatchingPredicate =
                     itemsMatchingPredicates s (predicates singletonHandler)
               in if 2 \<le> length allExtantItemsMatchingPredicate
                  then
                    (let sorted = array_sort (created_at_compare s) allExtantItemsMatchingPredicate;
                         winningItem = hd sorted;
                         toDelete = tl sorted
                     in (fold setItemToBeDeleted toDelete s,
                         notifyResolution i winningItem (m\<lparr>syncCalls := Suc (syncCalls m)\<rparr>)))
                  else if length allExtantItemsMatchingPredicate = 1
                  then (if singleton singletonHandler = None
                        then (s, notifyResolution i (hd allExtantItemsMatchingPredicate) m)
                        else (s, m))
                  else (s, m))
            else if singleton singletonHandler = None \<and> \<not> initialLoad \<and>
                    \<not> pendingCreateBlockCallback singletonHandler \<and> createBlock singletonHandler
            then (s, m\<lparr>singletonHandlers :=
                          (singletonHandlers m)
                            [i := singletonHandler\<lparr>pendingCreateBlockCallback := True\<rparr>],
                        createBlockCalls := createBlockCalls m @ [i]\<rparr>)
            else (s, m)))"

text \<open>\<^verbatim>\<open>resolveSingletons(retrievedItems, savedItems, initialLoad)\<close>.\<close>

definition resolveSingletons ::
  "((ref \<Rightarrow> ref \<Rightarrow> int) \<Rightarrow> ref list \<Rightarrow> ref list) \<Rightarrow> ref list \<Rightarrow> ref list \<Rightarrow> bool
     \<Rightarrow> store \<times> singletonManager \<Rightarrow> store \<times> singletonManager" where
  "resolveSingletons array_sort retrievedItems savedItems initialLoad st =
     fold (resolveHandler array_sort retrievedItems savedItems initialLoad)
       [0..<length (singletonHandlers (snd st))] st"

section \<open>JavaScript values and the injected primitives\<close>

datatype json =
    JNull
  | JBool bool
  | JNum int
  | JStr string
  | JArr "json list"
  | JObj "(string \<times> json) list"

text \<open>\<^verbatim>\<open>String.prototype.split(":")\<close>: always at least one component.\<close>

fun split_colon :: "string \<Rightarrow> string list" where
  "split_colon [] = [[]]"
| "split_colon (c # cs) =
     (if c = CHR '':'' then [] # split_colon cs
      else (case split_colon cs of
              [] \<Rightarrow> [[c]]
            | w # ws \<Rightarrow> (c # w) # ws))"

text \<open>
  \<^verbatim>\<open>Array.prototype.join(":")\<close>; an element that is \<^verbatim>\<open>undefined\<close> or \<^verbatim>\<open>null\<close>
  contributes the empty string.
\<close>

fun join_colon :: "string option list \<Rightarrow> string" where
  "join_colon [] = []"
| "join_colon [x] = (case x of None \<Rightarrow> [] | Some s \<Rightarrow> s)"
| "join_colon (x # y # ys) =
     (case x of None \<Rightarrow> [] | Some s \<Rightarrow> s) @ CHR '':'' # join_colon (y # ys)"

text \<open>\<^verbatim>\<open>components[i]\<close>: \<^verbatim>\<open>undefined\<close> past the end.\<close>

definition component :: "string list \<Rightarrow> nat \<Rightarrow> string option" where
  "component cs i = (if i < length cs then Some (cs ! i) else None)"

text \<open>\<^verbatim>\<open>Number.prototype.toString()\<close> of a non-negative integer, as \<^verbatim>\<open>join\<close> applies it.\<close>

fun string_of_nat :: "nat \<Rightarrow> string" where
  "string_of_nat n =
     (if n < 10 then [''0123456789'' ! n]
      else string_of_nat (n div 10) @ [''0123456789'' ! (n mod 10)])"

declare string_of_nat.simps [simp del]

text \<open>
  The library is handed its primitives: \<^verbatim>\<open>new SFItemTransformer(crypto)\<close> takes the
  crypto object, and the crypto classes call CryptoJS (or WebCrypto), \<^verbatim>\<open>btoa\<close>,
  \<^verbatim>\<open>atob\<close> and \<^verbatim>\<open>JSON\<close>. None of these is code of the library, so the model takes
  them as a record of functions:
  \<^item> \<open>AES_encrypt text key iv\<close> is
    \<^verbatim>\<open>CryptoJS.AES.encrypt(text, Hex.parse(key), {iv: Hex.parse(iv), CBC, Pkcs7}).toString()\<close>;
  \<^item> \<open>AES_decrypt ciphertext key iv\<close> is the matching
    \<^verbatim>\<open>CryptoJS.AES.decrypt(...).toString(CryptoJS.enc.Utf8)\<close>; the ciphertext may be
    \<^verbatim>\<open>undefined\<close>, and \<open>None\<close> is an exception;
  \<^item> \<open>HmacSHA256 message key\<close>, \<open>SHA256 text\<close> return hex strings;
  \<^item> \<open>PBKDF2 password salt keySize hasher iterations\<close> is
    \<^verbatim>\<open>CryptoJS.PBKDF2(password, salt, {keySize, hasher, iterations}).toString()\<close>;
  \<^item> \<open>btoa\<close> is the base64 encoder and \<open>atob\<close> the decoder, which throws (\<open>None\<close>) on
    input that is not base64 and whose argument may be \<^verbatim>\<open>undefined\<close>;
  \<^item> \<open>JSON_parse\<close> throws (\<open>None\<close>) on text that is not JSON.
\<close>

datatype hasher = SHA1 | SHA256_hasher | SHA512

record auth_params =
  version :: string
  ap_identifier :: "string option"
  pw_cost :: nat
  pw_nonce :: "string option"
  pw_salt :: "string option"

record js_env =
  AES_encrypt :: "string \<Rightarrow> string \<Rightarrow> string \<Rightarrow> string"
  AES_decrypt :: "string option \<Rightarrow> string \<Rightarrow> string \<Rightarrow> string option"
  HmacSHA256 :: "string \<Rightarrow> string \<Rightarrow> string"
  SHA256 :: "string \<Rightarrow> string"
  PBKDF2 :: "string \<Rightarrow> string \<Rightarrow> nat \<Rightarrow> hasher \<Rightarrow> nat \<Rightarrow> string"
  btoa :: "string \<Rightarrow> string"
  atob :: "string option \<Rightarrow> string option"
  JSON_parse :: "string \<Rightarrow> json option"
  JSON_stringify :: "json \<Rightarrow> string"
  JSON_stringify_auth_params :: "auth_params \<Rightarrow> string"

section \<open>The crypto classes (SFAbstractCrypto, SFCryptoJS)\<close>

record keys =
  pw :: string
  mk :: string
  ak :: string

text \<open>
  What \<^verbatim>\<open>encryptionComponentsFromString\<close> returns and \<^verbatim>\<open>decryptText\<close> takes. The
  fields read from \<^verbatim>\<open>components[i]\<close> are \<^verbatim>\<open>undefined\<close> when the string has too
  few fields, and \<^verbatim>\<open>iv\<close> and \<^verbatim>\<open>authHash\<close> are \<^verbatim>\<open>null\<close> for version 001.
\<close>

record encryptionComponents =
  encryptionVersion :: "string option"
  authHash :: "string option"
  c_uuid :: "string option"
  c_iv :: "string option"
  contentCiphertext :: "string option"
  authParams :: "string option"
  ciphertextToAuth :: string
  encryptionKey :: string
  authKey :: string

text \<open>\<^verbatim>\<open>hmac256\<close>, \<^verbatim>\<open>sha256\<close>, \<^verbatim>\<open>base64\<close>, \<^verbatim>\<open>base64Decode\<close>.\<close>

definition hmac256 :: "js_env \<Rightarrow> string \<Rightarrow> string \<Rightarrow> string" where
  "hmac256 env message key = HmacSHA256 env message key"

definition sha256 :: "js_env \<Rightarrow> string \<Rightarrow> string" where
  "sha256 env text = SHA256 env text"

definition base64 :: "js_env \<Rightarrow> string \<Rightarrow> string" where
  "base64 env text = btoa env text"

definition base64Decode :: "js_env \<Rightarrow> string option \<Rightarrow> string option" where
  "base64Decode env base64String = atob env base64String"

text \<open>\<^verbatim>\<open>encryptText(text, key, iv)\<close>: the IV is \<^verbatim>\<open>iv || ""\<close>.\<close>

definition encryptText :: "js_env \<Rightarrow> string \<Rightarrow> string \<Rightarrow> string option \<Rightarrow> string" where
  "encryptText env text key iv0 = AES_encrypt env text key (or_empty iv0)"

text \<open>
  \<^verbatim>\<open>decryptText(params, requiresAuth)\<close>. It returns \<^verbatim>\<open>undefined\<close> when a hash is
  required and missing, \<^verbatim>\<open>null\<close> when the hash does not match (both are \<open>None\<close>: the
  callers test the result for truthiness only), and the decrypted text otherwise. The hash
  comparison is \<^verbatim>\<open>!==\<close> on strings.
\<close>

definition decryptText ::
  "js_env \<Rightarrow> encryptionComponents \<Rightarrow> bool \<Rightarrow> string option completion" where
  "decryptText env params requiresAuth =
     (if requiresAuth \<and> \<not> truthy (authHash params) then Normal None
      else if truthy (authHash params) \<and>
              authHash params \<noteq> Some (hmac256 env (ciphertextToAuth params) (authKey params))
      then Normal None
      else (case AES_decrypt env (contentCiphertext params) (encryptionKey params)
                   (or_empty (c_iv params)) of
              None \<Rightarrow> Thrown None
            | Some text \<Rightarrow> Normal (Some text)))"

text \<open>
  \<^verbatim>\<open>firstHalfOfKey\<close>, \<^verbatim>\<open>secondHalfOfKey\<close>: \<^verbatim>\<open>substring\<close> truncates the fractional
  index \<^verbatim>\<open>key.length / 2\<close>.
\<close>

definition firstHalfOfKey :: "string \<Rightarrow> string" where
  "firstHalfOfKey key = take (length key div 2) key"

definition secondHalfOfKey :: "string \<Rightarrow> string" where
  "secondHalfOfKey key = drop (length key div 2) key"

text \<open>\<^verbatim>\<open>generateSalt(identifier, version, cost, nonce)\<close>.\<close>

definition generateSalt ::
  "js_env \<Rightarrow> string option \<Rightarrow> string \<Rightarrow> nat \<Rightarrow> string option \<Rightarrow> string" where
  "generateSalt env ident ver cost nonce =
     sha256 env (join_colon [ident, Some ''SF'', Some ver, Some (string_of_nat cost), nonce])"

text \<open>
  \<^verbatim>\<open>SFCryptoJS.pbkdf2(password, pw_salt, pw_cost, length)\<close>, with
  \<^verbatim>\<open>keySize: length / 32\<close>, \<^verbatim>\<open>hasher: CryptoJS.algo.SHA512\<close>. (\<^verbatim>\<open>SFCryptoWeb\<close> asks
  WebCrypto for the same derivation, \<^verbatim>\<open>{name: "PBKDF2", hash: {name: "SHA-512"}}\<close>.)
\<close>

definition DefaultPBKDF2Length :: nat where
  "DefaultPBKDF2Length = 768"

definition pbkdf2 :: "js_env \<Rightarrow> string \<Rightarrow> string \<Rightarrow> nat \<Rightarrow> nat \<Rightarrow> string" where
  "pbkdf2 env password salt cost len = PBKDF2 env password salt (len div 32) SHA512 cost"

text \<open>
  \<^verbatim>\<open>generateSymmetricKeyPair\<close>: \<^verbatim>\<open>splitLength = output.length / 3\<close> and three
  \<^verbatim>\<open>slice\<close> calls; \<^verbatim>\<open>slice\<close> truncates fractional bounds. The bounds are computed
  here in exact arithmetic (the source computes them in floating point).
\<close>

definition slice :: "nat \<Rightarrow> nat \<Rightarrow> string \<Rightarrow> string" where
  "slice from to s = take (to - from) (drop from s)"

definition generateSymmetricKeyPair ::
  "js_env \<Rightarrow> string \<Rightarrow> string \<Rightarrow> nat \<Rightarrow> string list" where
  "generateSymmetricKeyPair env password salt cost =
     (let output = pbkdf2 env password salt cost DefaultPBKDF2Length;
          outputLength = length output;
          firstThird = slice 0 (outputLength div 3) output;
          secondThird = slice (outputLength div 3) (2 * outputLength div 3) output;
          thirdThird = slice (2 * outputLength div 3) outputLength output
      in [firstThird, secondThird, thirdThird])"

text \<open>
  \<^verbatim>\<open>computeEncryptionKeysForUser(password, authParams)\<close>: for version 003 the salt is
  generated, and a missing identifier makes the method log an error and return nothing;
  for the other versions the salt is the server's \<^verbatim>\<open>pw_salt\<close>.
\<close>

definition computeEncryptionKeysForUser ::
  "js_env \<Rightarrow> string \<Rightarrow> auth_params \<Rightarrow> keys option" where
  "computeEncryptionKeysForUser env password authParams0 =
     (if version authParams0 = ''003'' \<and> \<not> truthy (ap_identifier authParams0) then None
      else
        (let salt = (if version authParams0 = ''003''
                     then generateSalt env (ap_identifier authParams0) (version authParams0)
                            (pw_cost authParams0) (pw_nonce authParams0)
                     else or_empty (pw_salt authParams0));
             ks = generateSymmetricKeyPair env password salt (pw_cost authParams0)
         in Some \<lparr>pw = ks ! 0, mk = ks ! 1, ak = ks ! 2\<rparr>))"

section \<open>The protocol codec (SFItemTransformer)\<close>

text \<open>
  The content of a record: absent, a string (a ciphertext envelope, or JSON text once
  decrypted), or a parsed value.
\<close>

datatype content = NoContent | StringContent string | ParsedContent json

text \<open>The fields of an item record that \<^verbatim>\<open>decryptItem\<close> reads and writes.\<close>

record json_item =
  j_uuid :: "string option"
  j_content :: content
  j_enc_item_key :: "string option"
  j_auth_hash :: "string option"
  j_auth_params :: "json option"
  j_deleted :: bool
  j_errorDecrypting :: bool
  j_errorDecryptingValueChanged :: bool

text \<open>What \<^verbatim>\<open>encryptItem\<close> returns: \<^verbatim>\<open>{enc_item_key, auth_hash, content}\<close>.\<close>

record encrypted_params =
  p_enc_item_key :: string
  p_auth_hash :: "string option"
  p_content :: string

text \<open>
  \<^verbatim>\<open>_private_encryptString\<close>. The random IV (\<^verbatim>\<open>generateRandomKey(128)\<close>) is an
  argument.
\<close>

definition private_encryptString ::
  "js_env \<Rightarrow> string \<Rightarrow> string \<Rightarrow> string \<Rightarrow> string \<Rightarrow> auth_params \<Rightarrow> string \<Rightarrow> string" where
  "private_encryptString env text encKey authK uid ap iv0 =
     (if version ap = ''001''
      then version ap @ encryptText env text encKey None
      else
        (let contentCt = encryptText env text encKey (Some iv0);
             toAuth = join_colon [Some (version ap), Some uid, Some iv0, Some contentCt];
             hash = hmac256 env toAuth authK;
             authParamsString = base64 env (JSON_stringify_auth_params env ap)
         in join_colon [Some (version ap), Some hash, Some uid, Some iv0, Some contentCt,
              Some authParamsString]))"

text \<open>
  \<^verbatim>\<open>encryptItem(item, keys, auth_params)\<close>. Of the item it reads the uuid and the content
  object (\<^verbatim>\<open>createContentJSONFromProperties()\<close>). The random item key
  (\<^verbatim>\<open>generateItemEncryptionKey()\<close>) and the two IVs are arguments.
\<close>

definition encryptItem ::
  "js_env \<Rightarrow> string \<Rightarrow> json \<Rightarrow> keys \<Rightarrow> auth_params \<Rightarrow> string \<Rightarrow> string \<Rightarrow> string
     \<Rightarrow> encrypted_params" where
  "encryptItem env uid contentJSON ks ap item_key iv_key iv_content =
     (let enc_item_key =
            (if version ap = ''001'' then encryptText env item_key (mk ks) None
             else private_encryptString env item_key (mk ks) (ak ks) uid ap iv_key);
          ek = firstHalfOfKey item_key;
          ak' = secondHalfOfKey item_key;
          ciphertext =
            private_encryptString env (JSON_stringify env contentJSON) ek ak' uid ap iv_content
      in \<lparr>p_enc_item_key = enc_item_key,
          p_auth_hash = (if version ap = ''001'' then Some (hmac256 env ciphertext ak') else None),
          p_content = ciphertext\<rparr>)"

text \<open>\<^verbatim>\<open>encryptionComponentsFromString(string, encryptionKey, authKey)\<close>.\<close>

definition encryptionComponentsFromString ::
  "string \<Rightarrow> string \<Rightarrow> string \<Rightarrow> encryptionComponents" where
  "encryptionComponentsFromString str encKey authK =
     (if take 3 str = ''001''
      then \<lparr>encryptionVersion = Some (take 3 str), authHash = None, c_uuid = None,
             c_iv = None, contentCiphertext = Some (drop 3 str), authParams = None,
             ciphertextToAuth = str, encryptionKey = encKey, authKey = authK\<rparr>
      else
        (let components = split_colon str
         in \<lparr>encryptionVersion = component components 0,
              authHash = component components 1,
              c_uuid = component components 2,
              c_iv = component components 3,
              contentCiphertext = component components 4,
              authParams = component components 5,
              ciphertextToAuth =
                join_colon [component components 0, component components 2,
                  component components 3, component components 4],
              encryptionKey = encKey, authKey = authK\<rparr>))"

text \<open>
  The three places where \<^verbatim>\<open>decryptItem\<close> gives up:
  \<^verbatim>\<open>if(!item.errorDecrypting) item.errorDecryptingValueChanged = true;
  item.errorDecrypting = true\<close>.
\<close>

definition markErrorDecrypting :: "json_item \<Rightarrow> json_item" where
  "markErrorDecrypting item =
     item\<lparr>j_errorDecryptingValueChanged :=
            (if \<not> j_errorDecrypting item then True else j_errorDecryptingValueChanged item),
          j_errorDecrypting := True\<rparr>"

text \<open>
  The two \<^verbatim>\<open>try { ... JSON.parse(await base64Decode(...)) } catch (e) {}\<close> blocks: the
  assignment happens only when neither call throws.
\<close>

definition decodeAndParse :: "js_env \<Rightarrow> string option \<Rightarrow> json option" where
  "decodeAndParse env b64 =
     (case base64Decode env b64 of
        None \<Rightarrow> None
      | Some text \<Rightarrow> JSON_parse env text)"

text \<open>\<^verbatim>\<open>decryptItem(item, keys)\<close>.\<close>

definition decryptContent ::
  "js_env \<Rightarrow> json_item \<Rightarrow> string \<Rightarrow> string \<Rightarrow> json_item completion" where
  "decryptContent env item str item_key =
     (let ek = firstHalfOfKey item_key;
          ak' = secondHalfOfKey item_key;
          itemParams = encryptionComponentsFromString str ek ak';
          item1 = (case decodeAndParse env (authParams itemParams) of
                     None \<Rightarrow> item
                   | Some parsed \<Rightarrow> item\<lparr>j_auth_params := Some parsed\<rparr>)
      in if truthy (c_uuid itemParams) \<and> c_uuid itemParams \<noteq> j_uuid item1
         then Normal (markErrorDecrypting item1)
         else
           (let itemParams' =
                  (if \<not> truthy (authHash itemParams)
                   then itemParams\<lparr>authHash := j_auth_hash item1\<rparr> else itemParams)
            in case decryptText env itemParams' True of
                 Thrown _ \<Rightarrow> Thrown item1
               | Normal decrypted \<Rightarrow>
                   (if \<not> truthy decrypted then Normal (markErrorDecrypting item1)
                    else Normal (item1\<lparr>
                      j_errorDecryptingValueChanged :=
                        (if j_errorDecrypting item1 then True
                         else j_errorDecryptingValueChanged item1),
                      j_errorDecrypting := False,
                      j_content := StringContent (or_empty decrypted)\<rparr>))))"

definition decryptItem :: "js_env \<Rightarrow> json_item \<Rightarrow> keys \<Rightarrow> json_item completion" where
  "decryptItem env item ks =
     (case j_content item of
        NoContent \<Rightarrow> Normal item
      | ParsedContent _ \<Rightarrow> Normal item
      | StringContent str \<Rightarrow>
          if take 3 str = ''000''
          then (case decodeAndParse env (Some (drop 3 str)) of
                  None \<Rightarrow> Normal item
                | Some parsed \<Rightarrow> Normal (item\<lparr>j_content := ParsedContent parsed\<rparr>))
          else if \<not> truthy (j_enc_item_key item) then Normal item
          else
            (let encryptedItemKey0 = or_empty (j_enc_item_key item);
                 legacy = (take 3 encryptedItemKey0 \<noteq> ''002'' \<and>
                           take 3 encryptedItemKey0 \<noteq> ''003'');
                 encryptedItemKey =
                   (if legacy then ''001'' @ encryptedItemKey0 else encryptedItemKey0);
                 requiresAuth = (\<not> legacy);
                 keyParams = encryptionComponentsFromString encryptedItemKey (mk ks) (ak ks)
             in if truthy (c_uuid keyParams) \<and> c_uuid keyParams \<noteq> j_uuid item
                then Normal (markErrorDecrypting item)
                else
                  (case decryptText env keyParams requiresAuth of
                     Thrown _ \<Rightarrow> Thrown item
                   | Normal item_key \<Rightarrow>
                       (if \<not> truthy item_key then Normal (markErrorDecrypting item)
                        else decryptContent env item str (or_empty item_key)))))"

text \<open>
  The \<^verbatim>\<open>decrypt\<close> closure of \<^verbatim>\<open>decryptMultipleItems(items, keys, throws)\<close>, applied
  to one item: an exception of \<^verbatim>\<open>decryptItem\<close> marks the item and is rethrown only when
  \<^verbatim>\<open>throws\<close> is set.
\<close>

definition decrypt :: "js_env \<Rightarrow> keys \<Rightarrow> bool \<Rightarrow> json_item \<Rightarrow> json_item completion" where
  "decrypt env ks throws item =
     (if j_deleted item \<and> j_content item = NoContent then Normal item
      else (case j_content item of
              StringContent _ \<Rightarrow>
                (case decryptItem env item ks of
                   Normal item' \<Rightarrow> Normal item'
                 | Thrown item' \<Rightarrow>
                     (if throws then Thrown (markErrorDecrypting item')
                      else Normal (markErrorDecrypting item')))
            | _ \<Rightarrow> Normal item))"

section \<open>Sample data\<close>

text \<open>
  A small provider for exercising the codec: the cipher reverses the text (so decryption
  inverts encryption) and throws on a missing ciphertext, the MAC is the letter h followed
  by message and key with every colon escaped (so it is injective in the message and its
  output has no colon), the key derivation repeats password and salt three times, base64
  is the identity, and JSON knows the empty object only.
\<close>

fun escape :: "string \<Rightarrow> string" where
  "escape [] = []"
| "escape (c # cs) =
     (if c = CHR '':'' then CHR ''%'' # CHR ''c'' # escape cs
      else if c = CHR ''%'' then CHR ''%'' # CHR ''%'' # escape cs
      else c # escape cs)"

fun unescape :: "string \<Rightarrow> string" where
  "unescape [] = []"
| "unescape [a] = [a]"
| "unescape (a # b # r) =
     (if a = CHR ''%'' then (if b = CHR ''c'' then CHR '':'' else b) # unescape r
      else a # unescape (b # r))"

definition toy_env :: js_env where
  "toy_env =
     \<lparr>AES_encrypt = (\<lambda>text key iv0. rev text),
      AES_decrypt = (\<lambda>ct key iv0. map_option rev ct),
      HmacSHA256 = (\<lambda>message key. CHR ''h'' # escape (message @ key)),
      SHA256 = (\<lambda>text. CHR ''s'' # text),
      PBKDF2 = (\<lambda>password salt keySize h iterations.
                  (password @ salt) @ (password @ salt) @ (password @ salt)),
      btoa = (\<lambda>text. text),
      atob = (\<lambda>b64. b64),
      JSON_parse = (\<lambda>text. if text = ''{}'' then Some (JObj []) else None),
      JSON_stringify = (\<lambda>j. if j = JObj [] then ''{}'' else ''null''),
      JSON_stringify_auth_params = (\<lambda>ap. ''{}'')\<rparr>"

definition toy_keys :: keys where
  "toy_keys = \<lparr>pw = ''aa'', mk = ''bb'', ak = ''cc''\<rparr>"

definition toy_auth_params :: "string \<Rightarrow> auth_params" where
  "toy_auth_params v =
     \<lparr>version = v, ap_identifier = Some ''a@b.c'', pw_cost = 110000,
      pw_nonce = Some ''n0'', pw_salt = None\<rparr>"

text \<open>
  The record that comes back for an encrypted item: the uuid and the three fields that
  \<^verbatim>\<open>encryptItem\<close> produced.
\<close>

definition received :: "string \<Rightarrow> encrypted_params \<Rightarrow> json_item" where
  "received uid p =
     \<lparr>j_uuid = Some uid, j_content = StringContent (p_content p),
      j_enc_item_key = Some (p_enc_item_key p), j_auth_hash = p_auth_hash p,
      j_auth_params = None, j_deleted = False, j_errorDecrypting = False,
      j_errorDecryptingValueChanged = False\<rparr>"

text \<open>
  The empty object of item u1, encrypted under the sample keys with item key
  \<^verbatim>\<open>0123abcd\<close> and IVs \<^verbatim>\<open>i1\<close>, \<^verbatim>\<open>i2\<close>, for a given protocol version.
\<close>

definition sample_encrypted :: "string \<Rightarrow> encrypted_params" where
  "sample_encrypted v =
     encryptItem toy_env ''u1'' (JObj []) toy_keys (toy_auth_params v) ''0123abcd'' ''i1'' ''i2''"

text \<open>
  The same under version 001 with the item key \<^verbatim>\<open>0123a200\<close>, whose ciphertext under the
  sample cipher is \<^verbatim>\<open>002a3210\<close>.
\<close>

definition legacy_clash_encrypted :: encrypted_params where
  "legacy_clash_encrypted =
     encryptItem toy_env ''u1'' (JObj []) toy_keys (toy_auth_params ''001'') ''0123a200''
       ''i1'' ''i2''"

text \<open>
  The 003 record with the IV of its content envelope overwritten (\<^verbatim>\<open>i2\<close> became
  \<^verbatim>\<open>i3\<close>), as it arrives, and again as a stored item that an earlier attempt has
  already marked.
\<close>

definition tampered_item :: json_item where
  "tampered_item =
     (received ''u1'' (sample_encrypted ''003''))
       \<lparr>j_content := StringContent ''003:h003%cu1%ci2%c}{abcd:u1:i3:}{:{}''\<rparr>"

definition tampered_marked_item :: json_item where
  "tampered_marked_item = tampered_item\<lparr>j_errorDecrypting := True\<rparr>"

text \<open>
  A well-formed envelope under the unknown version 004, and a 003 envelope with a surplus
  seventh field; both carry the MAC of their own authenticated string.
\<close>

definition version_004_item :: json_item where
  "version_004_item =
     (received ''u1'' (sample_encrypted ''003''))
       \<lparr>j_content := StringContent ''004:h004%cu1%ci2%c}{abcd:u1:i2:}{:{}''\<rparr>"

definition seven_field_item :: json_item where
  "seven_field_item =
     (received ''u1'' (sample_encrypted ''003''))
       \<lparr>j_content := StringContent ''003:h003%cu1%ci2%c}{abcd:u1:i2:}{:{}:extra''\<rparr>"

text \<open>An envelope cut down to two fields, and two plaintext records.\<close>

definition two_field_item :: json_item where
  "two_field_item =
     (received ''u1'' (sample_encrypted ''003''))\<lparr>j_content := StringContent ''003:abc''\<rparr>"

definition plaintext_item :: "string \<Rightarrow> json_item" where
  "plaintext_item str =
     \<lparr>j_uuid = Some ''u1'', j_content = StringContent str, j_enc_item_key = None,
      j_auth_hash = None, j_auth_params = None, j_deleted = False,
      j_errorDecrypting = False, j_errorDecryptingValueChanged = False\<rparr>"

text \<open>A two-item store for exercising the definitions: a dirty note and a clean tag.\<close>

definition empty_store :: store where
  "empty_store = \<lparr>heap = (\<lambda>_. blank_item), nextRef = 0, items = [],
     itemsHash = (\<lambda>_. None), missedReferences = [], itemsPendingRemoval = [],
     acceptableContentTypes = None, clock = 0, generateUUID = (\<lambda>_. ''fresh'')\<rparr>"

definition note_and_tag :: store where
  "note_and_tag = empty_store\<lparr>
     heap := (\<lambda>_. blank_item)
       (0 := blank_item\<lparr>uuid := ''n1'', content_type := ''Note''\<rparr>,
        1 := blank_item\<lparr>uuid := ''t1'', content_type := ''Tag''\<rparr>),
     nextRef := 2, items := [0, 1],
     itemsHash := (\<lambda>_. None)(''n1'' := Some 0, ''t1'' := Some 1)\<rparr>"

text \<open>
  The note is marked dirty and a sync is started: the request is now in flight.
\<close>

definition idle_engine :: engine where
  "idle_engine = \<lparr>the_store = note_and_tag, inflight = None\<rparr>"

definition in_flight_engine :: engine where
  "in_flight_engine = api_sync (api_setDirty 0 True idle_engine)"

text \<open>
  Records as a server sends them, and a store in which the note \<open>a\<close>, mapped alone,
  waits for the tag \<open>b\<close> it references: \<open>b\<close> has not arrived yet.
\<close>

definition server_record :: "string \<Rightarrow> string \<Rightarrow> string list \<Rightarrow> json_obj" where
  "server_record u t rs =
     \<lparr>jo_uuid = Some u, jo_content_type = Some t,
      jo_content =
        ObjectContent (Some (map (\<lambda>r. \<lparr>ref_uuid = r, ref_content_type = ''Tag''\<rparr>) rs)),
      jo_deleted = False, jo_dirty = None, jo_dirtyCount = None, jo_errorDecrypting = None,
      jo_created_at = Some 5\<rparr>"

fun result_store :: "('a \<times> store) completion \<Rightarrow> store" where
  "result_store (Normal (_, s)) = s"
| "result_store (Thrown (_, s)) = s"

definition waiting_store :: store where
  "waiting_store =
     result_store (mapResponseItemsToLocalModels [server_record ''a'' ''Note'' [''b'']] empty_store)"


text \<open>
  An engine's \<^verbatim>\<open>Array.prototype.sort\<close>, here insertion sort driven by the compare
  function, and a store with three preference items created at the times 7, 3 and 5,
  with a singleton handler registered for their content type.
\<close>

fun insert_by :: "('a \<Rightarrow> 'a \<Rightarrow> int) \<Rightarrow> 'a \<Rightarrow> 'a list \<Rightarrow> 'a list" where
  "insert_by compare x [] = [x]"
| "insert_by compare x (y # ys) =
     (if compare x y < 0 then x # y # ys else y # insert_by compare x ys)"

definition insertion_sort :: "('a \<Rightarrow> 'a \<Rightarrow> int) \<Rightarrow> 'a list \<Rightarrow> 'a list" where
  "insertion_sort compare xs = foldr (insert_by compare) xs []"

definition prefs_store :: store where
  "prefs_store = empty_store\<lparr>
     heap := (\<lambda>_. blank_item)
       (0 := blank_item\<lparr>uuid := ''p1'', content_type := ''Prefs'', created_at := 7\<rparr>,
        1 := blank_item\<lparr>uuid := ''p2'', content_type := ''Prefs'', created_at := 3\<rparr>,
        2 := blank_item\<lparr>uuid := ''p3'', content_type := ''Prefs'', created_at := 5\<rparr>),
     nextRef := 3, items := [0, 1, 2],
     itemsHash := (\<lambda>_. None)(''p1'' := Some 0, ''p2'' := Some 1, ''p3'' := Some 2)\<rparr>"

definition prefs_manager :: singletonManager where
  "prefs_manager =
     \<lparr>singletonHandlers =
        [\<lparr>predicates = [\<lambda>t. content_type t = ''Prefs''], singleton = None,
          pendingCreateBlockCallback = False, resolutionCallback = True, createBlock = True\<rparr>],
      syncCalls = 0, resolutionCalls = [], createBlockCalls = []\<rparr>"

text \<open>
  The note has been marked dirty; then a record of the note as local storage holds it,
  saved while the note was clean (\<^verbatim>\<open>dirty: false\<close>, no \<^verbatim>\<open>dirtyCount\<close>), is mapped.
\<close>

definition clean_local_record :: json_obj where
  "clean_local_record =
     \<lparr>jo_uuid = Some ''n1'', jo_content_type = Some ''Note'',
      jo_content = ObjectContent (Some []), jo_deleted = False, jo_dirty = Some False,
      jo_dirtyCount = None, jo_errorDecrypting = None, jo_created_at = None\<rparr>"

definition remapped_engine :: engine where
  "remapped_engine =
     api_mapResponseItems [clean_local_record] None (api_setDirty 0 True idle_engine)"

section \<open>Dirty tracking: lemmas\<close>

lemma items_upd [simp]: "items (upd a f s) = items s"
  by (simp add: upd_def)

lemma heap_clearDirtyItems:
  "heap (clearDirtyItems as s) b =
     (if b \<in> set as then setDirty False (heap s b) else heap s b)"
proof (induction as arbitrary: s)
  case Nil
  show ?case by simp
next
  case (Cons a as)
  show ?case
    by (simp add: Cons.IH heap_upd setDirty_def)
qed

lemma items_clearDirtyItems [simp]: "items (clearDirtyItems as s) = items s"
  by (induction as arbitrary: s) simp_all

lemma heap_resetDirtyCount:
  "heap (resetDirtyCount as s) b =
     (if b \<in> set as then (heap s b)\<lparr>dirtyCount := Some 0\<rparr> else heap s b)"
proof (induction as arbitrary: s)
  case Nil
  show ?case by simp
next
  case (Cons a as)
  show ?case
    by (simp add: Cons.IH heap_upd)
qed

lemma items_resetDirtyCount [simp]: "items (resetDirtyCount as s) = items s"
  by (induction as arbitrary: s) simp_all

lemma heap_onSyncSuccess:
  "heap (onSyncSuccess subItems s) b =
     (if b \<in> set subItems \<and> dirtyCount (heap s b) = Some 0
      then setDirty False (heap s b) else heap s b)"
  by (simp add: onSyncSuccess_def heap_clearDirtyItems)

lemma items_onSyncSuccess [simp]: "items (onSyncSuccess subItems s) = items s"
  by (simp add: onSyncSuccess_def)

lemma sync_subItems:
  "sync s = (subItems, s1) \<Longrightarrow> set subItems \<subseteq> set (getDirtyItems s)"
  by (auto simp: sync_def Let_def dest: in_set_takeD)

lemma heap_sync:
  "sync s = (subItems, s1) \<Longrightarrow>
   heap s1 b = (if b \<in> set subItems then (heap s b)\<lparr>dirtyCount := Some 0\<rparr> else heap s b)"
  by (auto simp: sync_def Let_def heap_resetDirtyCount)

lemma items_sync: "sync s = (subItems, s1) \<Longrightarrow> items s1 = items s"
  by (auto simp: sync_def Let_def)

text \<open>The invariant that does hold everywhere: a positive counter implies the flag.\<close>

definition count_implies_dirty :: "store \<Rightarrow> bool" where
  "count_implies_dirty s = (\<forall>a. dirtyCount_positive (heap s a) \<longrightarrow> dirty (heap s a))"

lemma count_implies_dirty_setDirty:
  "count_implies_dirty s \<Longrightarrow> count_implies_dirty (upd a (setDirty d) s)"
  by (auto simp: count_implies_dirty_def heap_upd setDirty_def dirtyCount_positive_def Let_def)

lemma count_implies_dirty_sync:
  "count_implies_dirty s \<Longrightarrow> sync s = (subItems, s1) \<Longrightarrow> count_implies_dirty s1"
  by (auto simp: count_implies_dirty_def heap_sync dirtyCount_positive_def)

lemma count_implies_dirty_onSyncSuccess:
  "count_implies_dirty s \<Longrightarrow> count_implies_dirty (onSyncSuccess subItems s)"
  by (auto simp: count_implies_dirty_def heap_onSyncSuccess setDirty_def
      dirtyCount_positive_def Let_def)

text \<open>
  The mapper and the constructor keep the invariant when the records are consistent with
  the dirty tracking: linking items does not touch the two fields, and
  \<^verbatim>\<open>updateFromJSON\<close> copies them consistently.
\<close>

lemma count_implies_dirty_heap:
  "heap s' = heap s \<Longrightarrow> count_implies_dirty s' = count_implies_dirty s"
  by (simp add: count_implies_dirty_def)

lemma count_implies_dirty_index [simp]:
  "count_implies_dirty (s\<lparr>itemsPendingRemoval := pending\<rparr>) = count_implies_dirty s"
  "count_implies_dirty (removeItemLocally a s) = count_implies_dirty s"
  "count_implies_dirty (addItem a s) = count_implies_dirty s"
  by (simp_all add: count_implies_dirty_def removeItemLocally_def addItem_def split: option.split)

lemma count_implies_dirty_fields:
  assumes "\<And>b. dirty (heap s' b) = dirty (heap s b)"
    and "\<And>b. dirtyCount (heap s' b) = dirtyCount (heap s b)"
  shows "count_implies_dirty s' = count_implies_dirty s"
  using assms by (simp add: count_implies_dirty_def dirtyCount_positive_def)

lemma count_implies_dirty_upd:
  assumes "count_implies_dirty s"
    and "dirtyCount_positive (f (heap s a)) \<longrightarrow> dirty (f (heap s a))"
  shows "count_implies_dirty (upd a f s)"
  using assms by (simp add: count_implies_dirty_def heap_upd)

lemma tracking_setIsBeingReferencedBy [simp]:
  "dirty (heap (setIsBeingReferencedBy this item s) b) = dirty (heap s b)"
  "dirtyCount (heap (setIsBeingReferencedBy this item s) b) = dirtyCount (heap s b)"
  by (simp_all add: setIsBeingReferencedBy_def heap_upd)

lemma tracking_addItemAsRelationship [simp]:
  "dirty (heap (addItemAsRelationship this item s) b) = dirty (heap s b)"
  "dirtyCount (heap (addItemAsRelationship this item s) b) = dirtyCount (heap s b)"
  by (simp_all add: addItemAsRelationship_def Let_def heap_upd)

lemma tracking_resolveReference [simp]:
  "dirty (heap (resolveReference item False lookup s) b) = dirty (heap s b)"
  "dirtyCount (heap (resolveReference item False lookup s) b) = dirtyCount (heap s b)"
  by (simp_all add: resolveReference_def Let_def split: prod.split option.split)

lemma tracking_fold_resolveReference [simp]:
  "dirty (heap (fold (resolveReference item False) lookups s) b) = dirty (heap s b)"
  "dirtyCount (heap (fold (resolveReference item False) lookups s) b) = dirtyCount (heap s b)"
  by (induction lookups arbitrary: s) simp_all

lemma tracking_resolveMapped [simp]:
  "dirty (heap (resolveMapped mj s) b) = dirty (heap s b)"
  "dirtyCount (heap (resolveMapped mj s) b) = dirtyCount (heap s b)"
  by (simp_all add: resolveMapped_def resolveReferencesForItem_def Let_def split: prod.split)

lemma tracking_fold_resolveMapped [simp]:
  "dirty (heap (fold resolveMapped mjs s) b) = dirty (heap s b)"
  "dirtyCount (heap (fold resolveMapped mjs s) b) = dirtyCount (heap s b)"
  by (induction mjs arbitrary: s) simp_all

lemma tracking_fold_addItemAsRelationship [simp]:
  "dirty (heap (fold (\<lambda>r. addItemAsRelationship (for_item r) model) missedRefs s) b) =
     dirty (heap s b)"
  "dirtyCount (heap (fold (\<lambda>r. addItemAsRelationship (for_item r) model) missedRefs s) b) =
     dirtyCount (heap s b)"
  by (induction missedRefs arbitrary: s) simp_all

lemma heap_popMissedReferenceStructsForObjects:
  "popMissedReferenceStructsForObjects objects s = Some (missedRefs, s') \<Longrightarrow> heap s' = heap s"
  by (auto simp: popMissedReferenceStructsForObjects_def Let_def split: list.splits option.splits)

lemma updateFromJSON_keeps_dirty_tracking:
  assumes "keeps_dirty_tracking json" and "dirtyCount_positive t \<longrightarrow> dirty t"
  shows "dirtyCount_positive (updateFromJSON now json t) \<longrightarrow> dirty (updateFromJSON now json t)"
  using assms
  by (auto simp: updateFromJSON_def keeps_dirty_tracking_def dirtyCount_positive_def
      split: option.splits)

lemma count_implies_dirty_createItem:
  assumes "count_implies_dirty s" and "keeps_dirty_tracking json"
  shows "count_implies_dirty (snd (createItem json s))"
proof -
  have "dirtyCount_positive (updateFromJSON (clock s) json blank_item) \<longrightarrow>
        dirty (updateFromJSON (clock s) json blank_item)"
    using assms(2)
    by (rule updateFromJSON_keeps_dirty_tracking) (simp add: dirtyCount_positive_def blank_item_def)
  with assms(1) show ?thesis
    by (simp add: createItem_def Let_def new_SFItem_def count_implies_dirty_def
        dirtyCount_positive_def)
qed

lemma heap_addItem [simp]: "heap (addItem a s) = heap s"
  by (simp add: addItem_def split: option.split)

lemma count_implies_dirty_mapRecord:
  assumes "count_implies_dirty s" and "keeps_dirty_tracking (omitted omitFields json0)"
  shows "count_implies_dirty (fst (mapRecord omitFields json0 (s, models, processedObjects)))"
proof -
  let ?json = "omitted omitFields json0"
  have found: "count_implies_dirty (upd a (\<lambda>t. (updateFromJSON (clock s) ?json t)\<lparr>dummy := False\<rparr>) s)"
    for a
  proof (rule count_implies_dirty_upd [OF assms(1)])
    from assms(1) have "dirtyCount_positive (heap s a) \<longrightarrow> dirty (heap s a)"
      by (simp add: count_implies_dirty_def)
    with assms(2)
    have "dirtyCount_positive (updateFromJSON (clock s) ?json (heap s a)) \<longrightarrow>
          dirty (updateFromJSON (clock s) ?json (heap s a))"
      by (rule updateFromJSON_keeps_dirty_tracking)
    then show "dirtyCount_positive ((updateFromJSON (clock s) ?json (heap s a))\<lparr>dummy := False\<rparr>) \<longrightarrow>
          dirty ((updateFromJSON (clock s) ?json (heap s a))\<lparr>dummy := False\<rparr>)"
      by (simp add: dirtyCount_positive_def)
  qed
  have created: "count_implies_dirty s''"
    if "count_implies_dirty s'" and "createItem ?json s' = (a, s'')" for s' a s''
    using count_implies_dirty_createItem [OF that(1) assms(2)] that(2) by simp
  have json: "(case omitFields of None \<Rightarrow> json0 | Some ks \<Rightarrow> omit ks json0) = ?json"
    by (simp add: omitted_def)
  show ?thesis
    unfolding mapRecord_def Let_def json
    using assms(1) found created
    by (auto split: option.splits prod.splits)
qed

lemma count_implies_dirty_fold_mapRecord:
  assumes "list_all (\<lambda>json. keeps_dirty_tracking (omitted omitFields json)) recs"
    and "count_implies_dirty (fst st)"
  shows "count_implies_dirty (fst (fold (mapRecord omitFields) recs st))"
  using assms
proof (induction recs arbitrary: st)
  case Nil
  then show ?case by simp
next
  case (Cons json0 recs)
  obtain s models processedObjects where st: "st = (s, models, processedObjects)"
    by (cases st)
  from Cons.prems have "count_implies_dirty (fst (mapRecord omitFields json0 st))"
    unfolding st by (intro count_implies_dirty_mapRecord) simp_all
  with Cons.IH [of "mapRecord omitFields json0 st"] Cons.prems(1) show ?case
    by simp
qed

lemma count_implies_dirty_mapResponseItems:
  assumes "count_implies_dirty s"
    and "list_all (\<lambda>json. keeps_dirty_tracking (omitted omitFields json)) recs"
  shows "count_implies_dirty
           (case mapResponseItemsToLocalModelsOmittingFields recs omitFields s of
              Normal (_, s') \<Rightarrow> s'
            | Thrown (_, s') \<Rightarrow> s')"
proof -
  obtain s1 models processedObjects
    where folded: "fold (mapRecord omitFields) recs (s, [], []) = (s1, models, processedObjects)"
    by (cases "fold (mapRecord omitFields) recs (s, [], [])")
  from count_implies_dirty_fold_mapRecord [OF assms(2), of "(s, [], [])"] assms(1)
  have one: "count_implies_dirty s1"
    by (simp add: folded)
  let ?s2 = "fold resolveMapped (zip models processedObjects) s1"
  have two: "count_implies_dirty ?s2"
    using one by (simp add: count_implies_dirty_fields [of ?s2 s1])
  show ?thesis
  proof (cases "popMissedReferenceStructsForObjects processedObjects ?s2")
    case None
    with two show ?thesis
      by (simp add: mapResponseItemsToLocalModelsOmittingFields_def folded Let_def)
  next
    case (Some popped)
    obtain missedRefs s3 where popped: "popped = (missedRefs, s3)"
      by (cases popped)
    from Some have "heap s3 = heap ?s2"
      unfolding popped by (rule heap_popMissedReferenceStructsForObjects)
    with two have "count_implies_dirty s3"
      using count_implies_dirty_heap [of s3 ?s2] by simp
    then have "count_implies_dirty
        (fold (\<lambda>r. addItemAsRelationship (for_item r) (last models)) missedRefs s3)"
      by (simp add: count_implies_dirty_fields
          [of "fold (\<lambda>r. addItemAsRelationship (for_item r) (last models)) missedRefs s3" s3])
    then show ?thesis
      by (simp add: mapResponseItemsToLocalModelsOmittingFields_def folded Let_def Some popped)
  qed
qed

text \<open>
  Marking for deletion and UUID alternation change the two fields through
  \<^verbatim>\<open>setDirty\<close> only, apart from the clone, which starts with the fields of the item.
\<close>

lemma count_implies_dirty_upd_same:
  assumes "count_implies_dirty s"
    and "dirty (f (heap s a)) = dirty (heap s a)"
    and "dirtyCount (f (heap s a)) = dirtyCount (heap s a)"
  shows "count_implies_dirty (upd a f s)"
  using assms by (simp add: count_implies_dirty_def heap_upd dirtyCount_positive_def)

lemma count_implies_dirty_setIsNoLongerBeingReferencedBy:
  "count_implies_dirty s \<Longrightarrow> count_implies_dirty (setIsNoLongerBeingReferencedBy this item s)"
  by (auto simp: setIsNoLongerBeingReferencedBy_def Let_def count_implies_dirty_def heap_upd
      setDirty_def dirtyCount_positive_def removeReferenceWithUuid_def)

lemma count_implies_dirty_removeItemAsRelationship:
  "count_implies_dirty s \<Longrightarrow> count_implies_dirty (removeItemAsRelationship this item s)"
  unfolding removeItemAsRelationship_def Let_def
  by (rule count_implies_dirty_upd_same)
    (simp_all add: count_implies_dirty_setIsNoLongerBeingReferencedBy removeReferenceWithUuid_def)

lemma count_implies_dirty_removeDirectRelationship:
  "count_implies_dirty s \<Longrightarrow> count_implies_dirty (removeDirectRelationship item r s)"
  unfolding removeDirectRelationship_def Let_def
  by (simp add: count_implies_dirty_setDirty count_implies_dirty_removeItemAsRelationship
      split: option.split)

lemma count_implies_dirty_fold_removeDirectRelationship:
  "count_implies_dirty s \<Longrightarrow> count_implies_dirty (fold (removeDirectRelationship item) rs s)"
  by (induction rs arbitrary: s) (simp_all add: count_implies_dirty_removeDirectRelationship)

lemma count_implies_dirty_removeIndirectRelationship:
  "count_implies_dirty s \<Longrightarrow> count_implies_dirty (removeIndirectRelationship item object s)"
  unfolding removeIndirectRelationship_def
  by (simp add: count_implies_dirty_setDirty count_implies_dirty_removeItemAsRelationship)

lemma count_implies_dirty_removeIndirectRelationships:
  "count_implies_dirty s \<Longrightarrow> count_implies_dirty (removeIndirectRelationships item i s)"
proof (induction item i s rule: removeIndirectRelationships.induct)
  case (1 item i s)
  show ?case
  proof (cases "i < length (referencingObjects (heap s item))")
    case True
    from "1.IH" [OF True] "1.prems" True show ?thesis
      by (simp add: removeIndirectRelationships.simps [of item i s]
          count_implies_dirty_removeIndirectRelationship)
  next
    case False
    with "1.prems" show ?thesis
      by (simp add: removeIndirectRelationships.simps [of item i s])
  qed
qed

lemma count_implies_dirty_setItemToBeDeleted:
  assumes "count_implies_dirty s"
  shows "count_implies_dirty (setItemToBeDeleted item s)"
proof -
  let ?s1 = "upd item (\<lambda>t. t\<lparr>deleted := True\<rparr>) s"
  let ?s2 = "if \<not> dummy (heap ?s1 item) then upd item (setDirty True) ?s1 else ?s1"
  from assms have "count_implies_dirty ?s1"
    by (rule count_implies_dirty_upd_same) simp_all
  then have "count_implies_dirty ?s2"
    by (simp add: count_implies_dirty_setDirty)
  then have "count_implies_dirty
      (removeIndirectRelationships item 0
        (fold (removeDirectRelationship item) (references (heap ?s2 item)) ?s2))"
    by (intro count_implies_dirty_removeIndirectRelationships
        count_implies_dirty_fold_removeDirectRelationship)
  then show ?thesis
    unfolding setItemToBeDeleted_def removeAndDirtyAllRelationshipsForItem_def Let_def
    by (rule count_implies_dirty_upd_same) simp_all
qed

lemma funpow_setDirty_tracking:
  "dirtyCount_positive t \<longrightarrow> dirty t \<Longrightarrow>
   dirtyCount_positive ((setDirty True ^^ n) t) \<longrightarrow> dirty ((setDirty True ^^ n) t)"
  by (induction n) (simp_all add: setDirty_def Let_def)

lemma count_implies_dirty_informModelsOfUUIDChangeForItem:
  "count_implies_dirty s \<Longrightarrow> count_implies_dirty (informModelsOfUUIDChangeForItem old new s)"
proof -
  have step: "count_implies_dirty (upd model (potentialItemOfInterestHasChangedItsUUID old new) s')"
    if "count_implies_dirty s'" for model s'
  proof (rule count_implies_dirty_upd [OF that])
    obtain rs n where r: "rewriteReferences old new (references (heap s' model)) = (rs, n)"
      by (cases "rewriteReferences old new (references (heap s' model))")
    from that have "dirtyCount_positive ((heap s' model)\<lparr>references := rs\<rparr>) \<longrightarrow>
        dirty ((heap s' model)\<lparr>references := rs\<rparr>)"
      by (simp add: count_implies_dirty_def dirtyCount_positive_def)
    then show "dirtyCount_positive (potentialItemOfInterestHasChangedItsUUID old new (heap s' model)) \<longrightarrow>
        dirty (potentialItemOfInterestHasChangedItsUUID old new (heap s' model))"
      unfolding potentialItemOfInterestHasChangedItsUUID_def r prod.case
      by (rule funpow_setDirty_tracking)
  qed
  have "count_implies_dirty s' \<Longrightarrow>
      count_implies_dirty
        (fold (\<lambda>model. upd model (potentialItemOfInterestHasChangedItsUUID old new)) ms s')"
    for ms s'
    by (induction ms arbitrary: s') (simp_all add: step)
  then show "count_implies_dirty s \<Longrightarrow>
      count_implies_dirty (informModelsOfUUIDChangeForItem old new s)"
    by (simp add: informModelsOfUUIDChangeForItem_def)
qed

lemma count_implies_dirty_inheritRelationship:
  assumes "count_implies_dirty s"
  shows "count_implies_dirty (inheritRelationship item newItem referencingObject s)"
proof -
  let ?s1 = "setIsNoLongerBeingReferencedBy referencingObject item s"
  let ?s2 = "addItemAsRelationship referencingObject newItem ?s1"
  from assms have "count_implies_dirty ?s1"
    by (rule count_implies_dirty_setIsNoLongerBeingReferencedBy)
  then have "count_implies_dirty ?s2"
    by (simp add: count_implies_dirty_fields [of ?s2 ?s1])
  then show ?thesis
    unfolding inheritRelationship_def by (rule count_implies_dirty_setDirty)
qed

lemma count_implies_dirty_inheritRelationships:
  "count_implies_dirty s \<Longrightarrow> count_implies_dirty (inheritRelationships item newItem i s)"
proof (induction item newItem i s rule: inheritRelationships.induct)
  case (1 item newItem i s)
  show ?case
  proof (cases "i < length (referencingObjects (heap s item))")
    case True
    from "1.IH" [OF True] "1.prems" True show ?thesis
      by (simp add: inheritRelationships.simps [of item newItem i s]
          count_implies_dirty_inheritRelationship)
  next
    case False
    with "1.prems" show ?thesis
      by (simp add: inheritRelationships.simps [of item newItem i s])
  qed
qed

lemma count_implies_dirty_clone:
  assumes "count_implies_dirty s"
  shows "count_implies_dirty (snd (createItem (as_json (heap s item)) s))"
proof -
  from assms have "dirtyCount_positive (heap s item) \<longrightarrow> dirty (heap s item)"
    by (simp add: count_implies_dirty_def)
  then have "dirtyCount_positive (updateFromJSON (clock s) (as_json (heap s item)) blank_item) \<longrightarrow>
      dirty (updateFromJSON (clock s) (as_json (heap s item)) blank_item)"
    by (auto simp: updateFromJSON_def as_json_def dirtyCount_positive_def blank_item_def
        split: option.splits)
  with assms show ?thesis
    by (simp add: createItem_def Let_def new_SFItem_def count_implies_dirty_def
        dirtyCount_positive_def)
qed

lemma count_implies_dirty_alternateUUIDForItem:
  assumes "count_implies_dirty s"
  shows "count_implies_dirty
           (case alternateUUIDForItem item s of
              Normal (_, s') \<Rightarrow> s'
            | Thrown (_, s') \<Rightarrow> s')"
proof -
  obtain newItem s1 where create: "createItem (as_json (heap s item)) s = (newItem, s1)"
    by (cases "createItem (as_json (heap s item)) s")
  define s2 where "s2 = upd newItem (\<lambda>t. t\<lparr>uuid := generateUUID s1 newItem\<rparr>) s1"
  define s3 where "s3 = informModelsOfUUIDChangeForItem (uuid (heap s2 item)) (uuid (heap s2 newItem)) s2"
  define s4 where "s4 = inheritRelationships item newItem 0 s3"
  define s5 where "s5 = upd item (\<lambda>t. setDirty False (t\<lparr>deleted := True, references := []\<rparr>)) s4"
  define mapped where "mapped = mapResponseItemsToLocalModels [as_json (heap s5 item)] s5"
  define s6 where "s6 = (case mapped of Normal (_, s') \<Rightarrow> s' | Thrown (_, s') \<Rightarrow> s')"
  from count_implies_dirty_clone [OF assms, of item] have "count_implies_dirty s1"
    by (simp add: create)
  then have "count_implies_dirty s2"
    unfolding s2_def by (rule count_implies_dirty_upd_same) simp_all
  then have "count_implies_dirty s3"
    unfolding s3_def by (rule count_implies_dirty_informModelsOfUUIDChangeForItem)
  then have "count_implies_dirty s4"
    unfolding s4_def by (rule count_implies_dirty_inheritRelationships)
  then have five: "count_implies_dirty s5"
    unfolding s5_def
    by (rule count_implies_dirty_upd) (simp add: setDirty_def Let_def dirtyCount_positive_def)
  have "dirtyCount (heap s5 item) = Some 0"
    by (simp add: s5_def heap_upd setDirty_def Let_def)
  then have "list_all (\<lambda>json. keeps_dirty_tracking (omitted None json)) [as_json (heap s5 item)]"
    by (simp add: keeps_dirty_tracking_def omitted_def as_json_def)
  with five have six: "count_implies_dirty s6"
    unfolding s6_def mapped_def mapResponseItemsToLocalModels_def
    by (rule count_implies_dirty_mapResponseItems)
  have result: "(case alternateUUIDForItem item s of
              Normal (_, s') \<Rightarrow> s'
            | Thrown (_, s') \<Rightarrow> s') =
        (case mapped of
           Normal (_, s') \<Rightarrow> upd newItem (setDirty True) (addItem newItem s')
         | Thrown (_, s') \<Rightarrow> s')"
    unfolding alternateUUIDForItem_def
    by (simp add: create Let_def s2_def [symmetric] s3_def [symmetric] s4_def [symmetric]
        s5_def [symmetric] mapped_def [symmetric] split: completion.split)
  from six show ?thesis
    unfolding result s6_def
    by (auto simp: count_implies_dirty_setDirty split: completion.split)
qed

lemma reachable_count_implies_dirty:
  "reachable e \<Longrightarrow> count_implies_dirty (the_store e)"
proof (induction rule: reachable.induct)
  case (loaded s)
  then show ?case
    by (simp add: count_implies_dirty_def dirtyCount_positive_def)
next
  case (step_setDirty e a d)
  then show ?case
    by (simp add: api_setDirty_def count_implies_dirty_setDirty)
next
  case (step_sync e)
  then show ?case
    by (auto simp: api_sync_def split: option.splits prod.splits
        intro: count_implies_dirty_sync)
next
  case (step_success e)
  then show ?case
    by (auto simp: api_response_success_def split: option.splits
        intro: count_implies_dirty_onSyncSuccess)
next
  case (step_error e)
  then show ?case
    by (simp add: api_response_error_def)
next
  case (step_map e omitFields recs)
  then show ?case
    by (simp add: api_mapResponseItems_def count_implies_dirty_mapResponseItems)
next
  case (step_createItem e json)
  then show ?case
    by (simp add: api_createItem_def count_implies_dirty_createItem)
next
  case (step_addItem e a)
  then show ?case
    by (simp add: api_addItem_def)
next
  case (step_setItemToBeDeleted e a)
  then show ?case
    by (simp add: api_setItemToBeDeleted_def count_implies_dirty_setItemToBeDeleted)
next
  case (step_removeItemLocally e a)
  then show ?case
    by (simp add: api_removeItemLocally_def)
next
  case (step_alternateUUID e a)
  then show ?case
    by (simp add: api_alternateUUIDForItem_def count_implies_dirty_alternateUUIDForItem)
qed

lemma heap_note_and_tag:
  "heap note_and_tag a =
     (if a = 0 then blank_item\<lparr>uuid := ''n1'', content_type := ''Note''\<rparr>
      else if a = 1 then blank_item\<lparr>uuid := ''t1'', content_type := ''Tag''\<rparr>
      else blank_item)"
  by (simp add: note_and_tag_def empty_store_def)

lemma items_note_and_tag: "items note_and_tag = [0, 1]"
  by (simp add: note_and_tag_def empty_store_def)

lemma reachable_idle_engine: "reachable idle_engine"
  unfolding idle_engine_def
  by (rule reachable.loaded) (simp add: heap_note_and_tag blank_item_def)

lemma reachable_in_flight_engine: "reachable in_flight_engine"
  unfolding in_flight_engine_def
  by (intro reachable.step_sync reachable.step_setDirty reachable_idle_engine)

lemma getDirtyItems_dirty_note:
  "getDirtyItems (upd 0 (setDirty True) note_and_tag) = [0]"
  by (simp add: getDirtyItems_def items_note_and_tag heap_upd heap_note_and_tag
      qualifiesForSync_def setDirty_def blank_item_def)

lemma sync_dirty_note:
  "sync (upd 0 (setDirty True) note_and_tag) =
     ([0], resetDirtyCount [0] (upd 0 (setDirty True) note_and_tag))"
  by (simp add: sync_def getDirtyItems_dirty_note)

lemma in_flight_engine_eq:
  "in_flight_engine =
     \<lparr>the_store = resetDirtyCount [0] (upd 0 (setDirty True) note_and_tag),
      inflight = Some [0]\<rparr>"
  by (simp add: in_flight_engine_def idle_engine_def api_sync_def api_setDirty_def
      sync_dirty_note)

lemma in_flight_note:
  "dirty (heap (the_store in_flight_engine) 0)"
  "dirtyCount (heap (the_store in_flight_engine) 0) = Some 0"
  by (simp_all add: in_flight_engine_eq heap_upd setDirty_def)

section \<open>Claims about dirty tracking\<close>

text \<open>
  C3, as stated: at every point reachable through the public API, also while a sync request
  is in flight, an item is dirty if and only if its dirtyCount is positive. This fails in
  both directions. For the note of the in-flight engine the sync has reset the counter to
  0 and left the note dirty. And when the note has been marked dirty and a record that
  says \<^verbatim>\<open>dirty: false\<close> and nothing about the counter is mapped onto it, the flag is
  lowered and the counter stays at 1.
\<close>

theorem dirty_iff_dirtyCount_counterexample:
  "reachable in_flight_engine \<and>
   dirty (heap (the_store in_flight_engine) 0) \<noteq>
     dirtyCount_positive (heap (the_store in_flight_engine) 0) \<and>
   reachable (api_setDirty 0 True idle_engine) \<and>
   dirtyCount_positive (heap (the_store remapped_engine) 0) \<and>
   \<not> dirty (heap (the_store remapped_engine) 0)"
proof -
  have "dirtyCount_positive (heap (the_store remapped_engine) 0)"
    and "\<not> dirty (heap (the_store remapped_engine) 0)"
    by code_simp+
  moreover have "reachable (api_setDirty 0 True idle_engine)"
    by (intro reachable.step_setDirty reachable_idle_engine)
  ultimately show ?thesis
    by (simp add: reachable_in_flight_engine in_flight_note dirtyCount_positive_def)
qed

text \<open>
  C3, amended: at every point reached from a store without counters by marking items
  dirty or clean, starting a sync, receiving its response (success or error), adding an
  item to the index, marking an item for deletion, removing it locally, alternating its
  uuid, and mapping or constructing from records that are silent on \<^verbatim>\<open>dirty\<close> and
  \<^verbatim>\<open>dirtyCount\<close>, or say \<^verbatim>\<open>dirty: true\<close>, or say \<^verbatim>\<open>dirtyCount: 0\<close>, a positive
  dirtyCount implies the dirty flag; and right after \<^verbatim>\<open>setDirty\<close> on an item its flag and the positivity of its
  counter agree. The converse implication is dropped: the items of a prepared submission
  batch are dirty with a counter of 0. Records that say otherwise about the two keys are
  left out: \<^verbatim>\<open>updateFromJSON\<close> copies each key on its own.
\<close>

theorem dirtyCount_positive_implies_dirty:
  assumes "reachable e"
  shows "(dirtyCount_positive (heap (the_store e) a) \<longrightarrow> dirty (heap (the_store e) a)) \<and>
         dirty (heap (the_store (api_setDirty a d e)) a) =
           dirtyCount_positive (heap (the_store (api_setDirty a d e)) a)"
proof
  from reachable_count_implies_dirty [OF assms]
  show "dirtyCount_positive (heap (the_store e) a) \<longrightarrow> dirty (heap (the_store e) a)"
    by (simp add: count_implies_dirty_def)
next
  show "dirty (heap (the_store (api_setDirty a d e)) a) =
          dirtyCount_positive (heap (the_store (api_setDirty a d e)) a)"
    by (simp add: api_setDirty_def heap_upd setDirty_def dirtyCount_positive_def Let_def)
qed

theorem dirtyCount_positive_implies_dirty_witness:
  "reachable
     (api_setDirty 0 True
        (api_mapResponseItems [server_record ''n2'' ''Note'' []] None idle_engine)) \<and>
   dirtyCount_positive
     (heap (the_store (api_setDirty 0 True
        (api_mapResponseItems [server_record ''n2'' ''Note'' []] None idle_engine))) 0) \<and>
   dirty
     (heap (the_store (api_setDirty 0 True
        (api_mapResponseItems [server_record ''n2'' ''Note'' []] None idle_engine))) 0) \<and>
   dirty
     (heap (the_store (api_setDirty 0 False (api_setDirty 0 True
        (api_mapResponseItems [server_record ''n2'' ''Note'' []] None idle_engine)))) 0) =
     dirtyCount_positive
       (heap (the_store (api_setDirty 0 False (api_setDirty 0 True
          (api_mapResponseItems [server_record ''n2'' ''Note'' []] None idle_engine)))) 0)"
proof -
  let ?e = "api_setDirty 0 True
     (api_mapResponseItems [server_record ''n2'' ''Note'' []] None idle_engine)"
  have "keeps_dirty_tracking (omitted None (server_record ''n2'' ''Note'' []))"
    by (simp add: keeps_dirty_tracking_def omitted_def server_record_def)
  then have r: "reachable ?e"
    by (intro reachable.step_setDirty reachable.step_map reachable_idle_engine) simp
  have p: "dirtyCount_positive (heap (the_store ?e) 0)"
    by (simp add: api_setDirty_def heap_upd setDirty_def dirtyCount_positive_def Let_def)
  from dirtyCount_positive_implies_dirty [OF r, of 0 False] r p show ?thesis
    by blast
qed

text \<open>
  C5: when the response of a successful sync is processed, the dirty flag is cleared on
  exactly the submitted items whose dirtyCount is 0 at that moment, whatever happened to
  the store while the request was in flight; and a submitted item that was marked dirty
  again in flight keeps its flag, has a positive counter and is in the dirty set of the
  next cycle.
\<close>

theorem onSyncSuccess_clears_exactly_unredirtied:
  assumes "sync s = (subItems, s1)"
  shows "dirty (heap (onSyncSuccess subItems s2) b) =
           (dirty (heap s2 b) \<and> \<not> (b \<in> set subItems \<and> dirtyCount (heap s2 b) = Some 0)) \<and>
         (a \<in> set subItems \<longrightarrow>
            dirty (heap (onSyncSuccess subItems (upd a (setDirty True) s1)) a) \<and>
            dirtyCount_positive (heap (onSyncSuccess subItems (upd a (setDirty True) s1)) a) \<and>
            a \<in> set (getDirtyItems (onSyncSuccess subItems (upd a (setDirty True) s1))))"
proof (intro conjI impI)
  show "dirty (heap (onSyncSuccess subItems s2) b) =
          (dirty (heap s2 b) \<and> \<not> (b \<in> set subItems \<and> dirtyCount (heap s2 b) = Some 0))"
    by (simp add: heap_onSyncSuccess setDirty_def)
next
  assume a: "a \<in> set subItems"
  let ?s3 = "onSyncSuccess subItems (upd a (setDirty True) s1)"
  have h3: "heap ?s3 a = setDirty True (heap s1 a)"
    by (simp add: heap_onSyncSuccess heap_upd setDirty_def Let_def)
  show "dirty (heap ?s3 a)"
    by (simp add: h3 setDirty_def Let_def)
  show "dirtyCount_positive (heap ?s3 a)"
    by (simp add: h3 setDirty_def dirtyCount_positive_def Let_def)
  from sync_subItems [OF assms] a have q: "a \<in> set (items s)" "qualifiesForSync (heap s a)"
    by (auto simp: getDirtyItems_def)
  have "heap s1 a = (heap s a)\<lparr>dirtyCount := Some 0\<rparr>"
    using heap_sync [OF assms, of a] a by simp
  with q(2) have "qualifiesForSync (heap ?s3 a)"
    by (simp add: h3 setDirty_def qualifiesForSync_def Let_def)
  moreover have "items ?s3 = items s"
    by (simp add: items_sync [OF assms])
  ultimately show "a \<in> set (getDirtyItems ?s3)"
    using q(1) by (simp add: getDirtyItems_def)
qed

theorem onSyncSuccess_clears_exactly_unredirtied_witness:
  "sync (upd 0 (setDirty True) note_and_tag) =
     ([0], resetDirtyCount [0] (upd 0 (setDirty True) note_and_tag)) \<and>
   \<not> dirty (heap (onSyncSuccess [0]
        (resetDirtyCount [0] (upd 0 (setDirty True) note_and_tag))) 0) \<and>
   dirty (heap (onSyncSuccess [0] (upd 0 (setDirty True)
        (resetDirtyCount [0] (upd 0 (setDirty True) note_and_tag)))) 0)"
  using onSyncSuccess_clears_exactly_unredirtied [OF sync_dirty_note,
      of "resetDirtyCount [0] (upd 0 (setDirty True) note_and_tag)" 0 0]
    sync_dirty_note
  by (simp add: heap_upd setDirty_def)

section \<open>The codec: envelopes\<close>

lemma split_colon_no_colon: "CHR '':'' \<notin> set s \<Longrightarrow> split_colon s = [s]"
  by (induction s) auto

lemma split_colon_field:
  "CHR '':'' \<notin> set s \<Longrightarrow> split_colon (s @ CHR '':'' # t) = s # split_colon t"
  by (induction s) auto

lemma split_colon_not_Nil: "split_colon s \<noteq> []"
  by (induction s) (auto split: list.splits)

lemma split_envelope:
  assumes "CHR '':'' \<notin> set v" "CHR '':'' \<notin> set h" "CHR '':'' \<notin> set u"
          "CHR '':'' \<notin> set i" "CHR '':'' \<notin> set c"
  shows "split_colon (join_colon [Some v, Some h, Some u, Some i, Some c, Some p]) =
           v # h # u # i # c # split_colon p"
  using assms by (simp add: split_colon_field)

lemma components_of_envelope:
  assumes nc: "CHR '':'' \<notin> set v" "CHR '':'' \<notin> set h" "CHR '':'' \<notin> set u"
          "CHR '':'' \<notin> set i" "CHR '':'' \<notin> set c"
      and v: "length v = 3" "v \<noteq> ''001''"
  shows "encryptionComponentsFromString
           (join_colon [Some v, Some h, Some u, Some i, Some c, Some p]) k1 k2 =
         \<lparr>encryptionVersion = Some v, authHash = Some h, c_uuid = Some u, c_iv = Some i,
          contentCiphertext = Some c, authParams = Some (hd (split_colon p)),
          ciphertextToAuth = join_colon [Some v, Some u, Some i, Some c],
          encryptionKey = k1, authKey = k2\<rparr>"
proof -
  have t: "take 3 (join_colon [Some v, Some h, Some u, Some i, Some c, Some p]) = v"
    using v(1) by simp
  obtain w ws where p: "split_colon p = w # ws"
    using split_colon_not_Nil [of p] by (cases "split_colon p") auto
  show ?thesis
    unfolding encryptionComponentsFromString_def t split_envelope [OF nc]
    using v(2) by (simp add: component_def p Let_def)
qed

lemma split_colon_fields_no_colon: "f \<in> set (split_colon s) \<Longrightarrow> CHR '':'' \<notin> set f"
proof (induction s arbitrary: f)
  case Nil
  then show ?case by simp
next
  case (Cons c cs)
  then show ?case
    by (cases "split_colon cs") (auto split: if_splits)
qed

text \<open>A field of the right length in front of a colon is the first component.\<close>

lemma split_colon_first_field:
  assumes "split_colon (a @ CHR '':'' # r) = f # fs" "length f = length a"
  shows "a = f \<and> split_colon r = fs"
  using assms
proof (induction a arbitrary: f fs)
  case Nil
  then show ?case by simp
next
  case (Cons c a)
  show ?case
  proof (cases "c = CHR '':''")
    case True
    with Cons.prems show ?thesis by simp
  next
    case False
    obtain w ws where w: "split_colon (a @ CHR '':'' # r) = w # ws"
      using split_colon_not_Nil [of "a @ CHR '':'' # r"]
      by (cases "split_colon (a @ CHR '':'' # r)") auto
    with Cons.prems False have f: "f = c # w" "fs = ws" by simp_all
    with Cons.prems(2) have "length w = length a" by simp
    from Cons.IH [OF w this] f show ?thesis by simp
  qed
qed

lemma join4_inj:
  assumes "join_colon [Some v, Some a, Some b, Some c] = join_colon [Some v, Some a', Some b', Some c']"
      and "CHR '':'' \<notin> set v" "CHR '':'' \<notin> set a" "CHR '':'' \<notin> set b" "CHR '':'' \<notin> set c"
          "CHR '':'' \<notin> set a'" "CHR '':'' \<notin> set b'" "CHR '':'' \<notin> set c'"
  shows "a = a' \<and> b = b' \<and> c = c'"
proof -
  have 1: "split_colon (join_colon [Some v, Some a, Some b, Some c]) = [v, a, b, c]"
    using assms(2-5) by (simp add: split_colon_field split_colon_no_colon)
  have 2: "split_colon (join_colon [Some v, Some a', Some b', Some c']) = [v, a', b', c']"
    using assms(2,6-8) by (simp add: split_colon_field split_colon_no_colon)
  from arg_cong [OF assms(1), of split_colon] have "[v, a, b, c] = [v, a', b', c']"
    unfolding 1 2 .
  then show ?thesis by simp
qed

text \<open>
  The authenticated string of an envelope whose uuid, iv or ciphertext field was
  overwritten (same length, different value) differs from the original's.
\<close>

lemma tampered_components:
  assumes nc: "CHR '':'' \<notin> set v" "CHR '':'' \<notin> set h" "CHR '':'' \<notin> set u"
              "CHR '':'' \<notin> set i" "CHR '':'' \<notin> set c"
      and v: "length v = 3" "v \<noteq> ''001''"
      and len: "length u' = length u" "length i' = length i" "length c' = length c"
      and diff: "(u', i', c') \<noteq> (u, i, c)"
      and P: "P = encryptionComponentsFromString
                    (join_colon [Some v, Some h, Some u', Some i', Some c', Some p]) k1 k2"
  shows "authHash P = Some h \<and>
         ciphertextToAuth P \<noteq> join_colon [Some v, Some u, Some i, Some c] \<and>
         authKey P = k2"
proof -
  let ?rest = "u' @ CHR '':'' # i' @ CHR '':'' # c' @ CHR '':'' # p"
  have t: "take 3 (join_colon [Some v, Some h, Some u', Some i', Some c', Some p]) = v"
    using v(1) by simp
  have sp: "split_colon (join_colon [Some v, Some h, Some u', Some i', Some c', Some p]) =
              v # h # split_colon ?rest"
    using nc(1,2) by (simp add: split_colon_field)
  obtain g2 r2 where g2: "split_colon ?rest = g2 # r2"
    using split_colon_not_Nil [of ?rest] by (cases "split_colon ?rest") auto
  have Pa: "authHash P = Some h" "authKey P = k2"
    unfolding P encryptionComponentsFromString_def t sp
    using v(2) by (simp_all add: component_def Let_def)
  have Pc: "ciphertextToAuth P =
              join_colon [Some v, component (v # h # g2 # r2) 2, component (v # h # g2 # r2) 3,
                component (v # h # g2 # r2) 4]"
    unfolding P encryptionComponentsFromString_def t sp g2
    using v(2) by (simp add: component_def Let_def)
  have fld: "\<And>g. g \<in> set (g2 # r2) \<Longrightarrow> CHR '':'' \<notin> set g"
    using split_colon_fields_no_colon [of _ ?rest] unfolding g2 by blast
  have "ciphertextToAuth P \<noteq> join_colon [Some v, Some u, Some i, Some c]"
  proof
    assume eq: "ciphertextToAuth P = join_colon [Some v, Some u, Some i, Some c]"
    from split_colon_first_field [OF g2] have l2: "length g2 = length u' \<Longrightarrow>
        u' = g2 \<and> split_colon (i' @ CHR '':'' # c' @ CHR '':'' # p) = r2"
      by simp
    show False
    proof (cases r2)
      case Nil
      have f2: "CHR '':'' \<notin> set g2"
        using fld by simp
      have cP: "ciphertextToAuth P = join_colon [Some v, Some g2, Some [], Some []]"
        by (simp add: Pc Nil component_def)
      have "join_colon [Some v, Some g2, Some [], Some []] =
            join_colon [Some v, Some u, Some i, Some c]"
        using eq unfolding cP .
      from join4_inj [OF this nc(1) f2 _ _ nc(3,4,5)] have "g2 = u"
        by simp
      with l2 len(1) Nil show False
        using split_colon_not_Nil by metis
    next
      case (Cons g3 r3)
      note r2 = Cons
      have f2: "CHR '':'' \<notin> set g2" and f3: "CHR '':'' \<notin> set g3"
        using fld r2 by simp_all
      show False
      proof (cases r3)
        case Nil
        have cP: "ciphertextToAuth P = join_colon [Some v, Some g2, Some g3, Some []]"
          by (simp add: Pc r2 Nil component_def)
        have "join_colon [Some v, Some g2, Some g3, Some []] =
              join_colon [Some v, Some u, Some i, Some c]"
          using eq unfolding cP .
        from join4_inj [OF this nc(1) f2 f3 _ nc(3,4,5)] have e: "g2 = u" "g3 = i"
          by simp_all
        from l2 len(1) e(1)
        have s3: "split_colon (i' @ CHR '':'' # c' @ CHR '':'' # p) = g3 # r3"
          by (simp add: r2)
        from split_colon_first_field [OF s3] len(2) e(2) Nil show False
          using split_colon_not_Nil by metis
      next
        case (Cons g4 r4)
        have f4: "CHR '':'' \<notin> set g4"
          using fld r2 Cons by simp
        have cP: "ciphertextToAuth P = join_colon [Some v, Some g2, Some g3, Some g4]"
          by (simp add: Pc r2 Cons component_def)
        have "join_colon [Some v, Some g2, Some g3, Some g4] =
              join_colon [Some v, Some u, Some i, Some c]"
          using eq unfolding cP .
        from join4_inj [OF this nc(1) f2 f3 f4 nc(3,4,5)] have e: "g2 = u" "g3 = i" "g4 = c"
          by simp_all
        from l2 len(1) e(1)
        have u: "u' = u" and s3: "split_colon (i' @ CHR '':'' # c' @ CHR '':'' # p) = g3 # r3"
          by (simp_all add: r2)
        from split_colon_first_field [OF s3] len(2) e(2)
        have i: "i' = i" and s4: "split_colon (c' @ CHR '':'' # p) = g4 # r4"
          by (simp_all add: Cons)
        from split_colon_first_field [OF s4] len(3) e(3)
        have "c' = c" by simp
        with u i diff show False by simp
      qed
    qed
  qed
  with Pa show ?thesis by simp
qed

section \<open>The codec: the two stages of decryptItem\<close>

lemma decryptItem_versioned_key:
  assumes "j_content item = StringContent str" "take 3 str \<noteq> ''000''"
          "j_enc_item_key item = Some K" "K \<noteq> []"
          "take 3 K = ''002'' \<or> take 3 K = ''003''"
  shows "decryptItem env item ks =
           (if truthy (c_uuid (encryptionComponentsFromString K (mk ks) (ak ks))) \<and>
               c_uuid (encryptionComponentsFromString K (mk ks) (ak ks)) \<noteq> j_uuid item
            then Normal (markErrorDecrypting item)
            else (case decryptText env (encryptionComponentsFromString K (mk ks) (ak ks)) True of
                    Thrown _ \<Rightarrow> Thrown item
                  | Normal item_key \<Rightarrow>
                      (if \<not> truthy item_key then Normal (markErrorDecrypting item)
                       else decryptContent env item str (or_empty item_key))))"
  using assms by (auto simp: decryptItem_def Let_def truthy_def or_empty_def)

lemma decryptItem_legacy_key:
  assumes "j_content item = StringContent str" "take 3 str \<noteq> ''000''"
          "j_enc_item_key item = Some K" "K \<noteq> []"
          "take 3 K \<noteq> ''002''" "take 3 K \<noteq> ''003''"
  shows "decryptItem env item ks =
           (case decryptText env (encryptionComponentsFromString (''001'' @ K) (mk ks) (ak ks))
                   False of
              Thrown _ \<Rightarrow> Thrown item
            | Normal item_key \<Rightarrow>
                (if \<not> truthy item_key then Normal (markErrorDecrypting item)
                 else decryptContent env item str (or_empty item_key)))"
  using assms
  by (auto simp: decryptItem_def Let_def truthy_def or_empty_def
      encryptionComponentsFromString_def)

lemma key_stage_v2:
  assumes v: "v = ''002'' \<or> v = ''003''"
      and K: "K = join_colon [Some v, Some hk, Some uid, Some ivk, Some ctk, Some aps]"
      and hk: "hk = HmacSHA256 env (join_colon [Some v, Some uid, Some ivk, Some ctk]) (ak ks)"
      and hk0: "hk \<noteq> []"
      and nc: "CHR '':'' \<notin> set hk" "CHR '':'' \<notin> set uid" "CHR '':'' \<notin> set ivk"
              "CHR '':'' \<notin> set ctk"
      and inv: "AES_decrypt env (Some ctk) (mk ks) ivk = Some item_key"
      and ik: "item_key \<noteq> []"
      and item: "j_content item = StringContent str" "take 3 str \<noteq> ''000''"
                "j_enc_item_key item = Some K" "j_uuid item = Some uid"
  shows "decryptItem env item ks = decryptContent env item str item_key"
proof -
  have lv: "length v = 3" "v \<noteq> ''001''" "CHR '':'' \<notin> set v"
    using v by auto
  have tk: "take 3 K = v"
    unfolding K using lv(1) by simp
  have K0: "K \<noteq> []"
    using tk lv(1) by auto
  have leg: "take 3 K = ''002'' \<or> take 3 K = ''003''"
    using tk v by auto
  have comps: "encryptionComponentsFromString K (mk ks) (ak ks) =
      \<lparr>encryptionVersion = Some v, authHash = Some hk, c_uuid = Some uid, c_iv = Some ivk,
       contentCiphertext = Some ctk, authParams = Some (hd (split_colon aps)),
       ciphertextToAuth = join_colon [Some v, Some uid, Some ivk, Some ctk],
       encryptionKey = mk ks, authKey = ak ks\<rparr>"
    unfolding K using components_of_envelope [OF lv(3) nc lv(1,2)] by simp
  have dt: "decryptText env (encryptionComponentsFromString K (mk ks) (ak ks)) True =
              Normal (Some item_key)"
    unfolding comps
    using hk0 inv hk by (simp add: decryptText_def truthy_def hmac256_def or_empty_def)
  have cu: "c_uuid (encryptionComponentsFromString K (mk ks) (ak ks)) = Some uid"
    by (simp add: comps)
  show ?thesis
    unfolding decryptItem_versioned_key [OF item(1,2,3) K0 leg] dt cu
    using item(4) ik by (simp add: truthy_def or_empty_def)
qed

lemma key_stage_v1:
  assumes inv: "AES_decrypt env (Some K) (mk ks) [] = Some item_key"
      and ik: "item_key \<noteq> []"
      and K: "K \<noteq> []" "take 3 K \<noteq> ''002''" "take 3 K \<noteq> ''003''"
      and item: "j_content item = StringContent str" "take 3 str \<noteq> ''000''"
                "j_enc_item_key item = Some K"
  shows "decryptItem env item ks = decryptContent env item str item_key"
proof -
  have dt: "decryptText env (encryptionComponentsFromString (''001'' @ K) (mk ks) (ak ks)) False =
              Normal (Some item_key)"
    using inv by (simp add: decryptText_def encryptionComponentsFromString_def truthy_def
        or_empty_def)
  show ?thesis
    unfolding decryptItem_legacy_key [OF item K] dt
    using ik by (simp add: truthy_def or_empty_def)
qed

text \<open>Content stage: a verified envelope.\<close>

lemma content_stage_v2:
  assumes v: "v = ''002'' \<or> v = ''003''"
      and C: "str = join_colon [Some v, Some hc, Some uid, Some ivc, Some ctc, Some aps]"
      and hc: "hc = HmacSHA256 env (join_colon [Some v, Some uid, Some ivc, Some ctc]) ak'"
      and hc0: "hc \<noteq> []"
      and nc: "CHR '':'' \<notin> set hc" "CHR '':'' \<notin> set uid" "CHR '':'' \<notin> set ivc"
              "CHR '':'' \<notin> set ctc"
      and inv: "AES_decrypt env (Some ctc) ek ivc = Some plaintext"
      and pt: "plaintext \<noteq> []"
      and keyh: "ek = firstHalfOfKey item_key" "ak' = secondHalfOfKey item_key"
      and item: "j_uuid item = Some uid"
  shows "\<exists>item'. decryptContent env item str item_key = Normal item' \<and>
           j_content item' = StringContent plaintext \<and> \<not> j_errorDecrypting item'"
proof -
  have lv: "length v = 3" "v \<noteq> ''001''" "CHR '':'' \<notin> set v"
    using v by auto
  have comps: "encryptionComponentsFromString str ek ak' =
      \<lparr>encryptionVersion = Some v, authHash = Some hc, c_uuid = Some uid, c_iv = Some ivc,
       contentCiphertext = Some ctc, authParams = Some (hd (split_colon aps)),
       ciphertextToAuth = join_colon [Some v, Some uid, Some ivc, Some ctc],
       encryptionKey = ek, authKey = ak'\<rparr>"
    unfolding C using components_of_envelope [OF lv(3) nc lv(1,2)] by simp
  have dt: "decryptText env (encryptionComponentsFromString str ek ak') True =
              Normal (Some plaintext)"
    unfolding comps
    using hc0 inv hc by (simp add: decryptText_def truthy_def hmac256_def or_empty_def)
  have dt': "decryptText env
               ((encryptionComponentsFromString str ek ak')\<lparr>authHash := Some hc\<rparr>) True =
              Normal (Some plaintext)"
    using dt by (simp add: comps)
  show ?thesis
    unfolding decryptContent_def keyh [symmetric] Let_def
    using item pt hc0 dt
    by (cases "decodeAndParse env (authParams (encryptionComponentsFromString str ek ak'))")
       (simp_all add: comps truthy_def or_empty_def del: join_colon.simps)
qed

lemma content_stage_v1:
  assumes C: "str = ''001'' @ ctc"
      and h: "j_auth_hash item = Some (HmacSHA256 env str ak')"
             "HmacSHA256 env str ak' \<noteq> []"
      and inv: "AES_decrypt env (Some ctc) ek [] = Some plaintext"
      and pt: "plaintext \<noteq> []"
      and keyh: "ek = firstHalfOfKey item_key" "ak' = secondHalfOfKey item_key"
  shows "\<exists>item'. decryptContent env item str item_key = Normal item' \<and>
           j_content item' = StringContent plaintext \<and> \<not> j_errorDecrypting item'"
proof -
  have comps: "encryptionComponentsFromString str ek ak' =
      \<lparr>encryptionVersion = Some ''001'', authHash = None, c_uuid = None, c_iv = None,
       contentCiphertext = Some ctc, authParams = None,
       ciphertextToAuth = str, encryptionKey = ek, authKey = ak'\<rparr>"
    by (simp add: encryptionComponentsFromString_def C)
  have dt: "decryptText env
              \<lparr>encryptionVersion = Some ''001'', authHash = Some (HmacSHA256 env str ak'),
               c_uuid = None, c_iv = None,
               contentCiphertext = Some ctc, authParams = None,
               ciphertextToAuth = str, encryptionKey = ek, authKey = ak'\<rparr> True =
              Normal (Some plaintext)"
    using h(2) inv by (simp add: decryptText_def truthy_def hmac256_def or_empty_def)
  show ?thesis
    unfolding decryptContent_def keyh [symmetric] Let_def comps
    using pt h dt
    by (cases "decodeAndParse env None") (simp_all add: truthy_def or_empty_def)
qed

lemma private_encryptString_v1:
  "version ap = ''001'' \<Longrightarrow>
   private_encryptString env text encKey authK uid ap iv0 =
     ''001'' @ AES_encrypt env text encKey []"
  by (simp add: private_encryptString_def encryptText_def or_empty_def)

lemma private_encryptString_v2:
  "version ap \<noteq> ''001'' \<Longrightarrow>
   private_encryptString env text encKey authK uid ap iv0 =
     join_colon [Some (version ap),
       Some (HmacSHA256 env
         (join_colon [Some (version ap), Some uid, Some iv0,
            Some (AES_encrypt env text encKey iv0)]) authK),
       Some uid, Some iv0, Some (AES_encrypt env text encKey iv0),
       Some (btoa env (JSON_stringify_auth_params env ap))]"
  by (simp add: private_encryptString_def encryptText_def or_empty_def Let_def hmac256_def
      base64_def)

lemma markErrorDecrypting_fields [simp]:
  "j_errorDecrypting (markErrorDecrypting item)"
  "j_content (markErrorDecrypting item) = j_content item"
  "\<not> j_errorDecrypting item \<Longrightarrow> j_errorDecryptingValueChanged (markErrorDecrypting item)"
  by (simp_all add: markErrorDecrypting_def)

lemma decryptText_short:
  assumes "contentCiphertext P = None" "\<forall>key iv0. AES_decrypt env None key iv0 = None"
  shows "decryptText env P r = Normal None \<or> decryptText env P r = Thrown None"
  using assms by (simp add: decryptText_def)

lemma decryptContent_short:
  assumes s: "take 3 str \<noteq> ''001''" "length (split_colon str) < 5"
      and thr: "\<forall>key iv0. AES_decrypt env None key iv0 = None"
  shows "\<exists>item1. j_content item1 = j_content item \<and>
           (decryptContent env item str k = Normal (markErrorDecrypting item1) \<or>
            decryptContent env item str k = Thrown item1)"
proof -
  let ?P = "encryptionComponentsFromString str (firstHalfOfKey k) (secondHalfOfKey k)"
  define item1 where "item1 = (case decodeAndParse env (authParams ?P) of
                     None \<Rightarrow> item
                   | Some parsed \<Rightarrow> item\<lparr>j_auth_params := Some parsed\<rparr>)"
  define P' where "P' = (if \<not> truthy (authHash ?P)
                   then ?P\<lparr>authHash := j_auth_hash item1\<rparr> else ?P)"
  have c: "contentCiphertext P' = None"
    using s by (simp add: P'_def encryptionComponentsFromString_def component_def Let_def)
  have i1: "j_content item1 = j_content item"
    by (simp add: item1_def split: option.splits)
  have d: "decryptContent env item str k =
          (if truthy (c_uuid ?P) \<and> c_uuid ?P \<noteq> j_uuid item1
           then Normal (markErrorDecrypting item1)
           else (case decryptText env P' True of
                 Thrown _ \<Rightarrow> Thrown item1
               | Normal decrypted \<Rightarrow>
                   (if \<not> truthy decrypted then Normal (markErrorDecrypting item1)
                    else Normal (item1\<lparr>
                      j_errorDecryptingValueChanged :=
                        (if j_errorDecrypting item1 then True
                         else j_errorDecryptingValueChanged item1),
                      j_errorDecrypting := False,
                      j_content := StringContent (or_empty decrypted)\<rparr>))))"
    unfolding decryptContent_def Let_def item1_def [symmetric] P'_def [symmetric] ..
  from decryptText_short [OF c thr, of True]
  have "decryptContent env item str k = Normal (markErrorDecrypting item1) \<or>
        decryptContent env item str k = Thrown item1"
    unfolding d by (auto simp: truthy_def)
  with i1 show ?thesis by blast
qed

section \<open>The sample provider\<close>

lemmas toy_defs = toy_env_def toy_keys_def toy_auth_params_def received_def
  sample_encrypted_def legacy_clash_encrypted_def encryptItem_def private_encryptString_def
  encryptText_def or_empty_def hmac256_def base64_def firstHalfOfKey_def secondHalfOfKey_def
  Let_def

lemma sample_encrypted_003:
  "sample_encrypted ''003'' =
     \<lparr>p_enc_item_key = ''003:h003%cu1%ci1%cdcba3210cc:u1:i1:dcba3210:{}'',
      p_auth_hash = None,
      p_content = ''003:h003%cu1%ci2%c}{abcd:u1:i2:}{:{}''\<rparr>"
  by (simp add: toy_defs)

lemma sample_encrypted_001:
  "sample_encrypted ''001'' =
     \<lparr>p_enc_item_key = ''dcba3210'', p_auth_hash = Some ''h001}{abcd'',
      p_content = ''001}{''\<rparr>"
  by (simp add: toy_defs)

lemma legacy_clash_encrypted_eq:
  "legacy_clash_encrypted =
     \<lparr>p_enc_item_key = ''002a3210'', p_auth_hash = Some ''h001}{a200'',
      p_content = ''001}{''\<rparr>"
  by (simp add: toy_defs)

lemmas decrypt_defs = decryptItem_def decryptContent_def decryptText_def
  encryptionComponentsFromString_def decodeAndParse_def base64Decode_def markErrorDecrypting_def
  component_def truthy_def

lemma unescape_escape: "unescape (escape s) = s"
proof (induction s)
  case Nil
  show ?case by simp
next
  case (Cons c s)
  then show ?case
    by (cases "escape s") auto
qed

lemma escape_inj: "escape a = escape b \<Longrightarrow> a = b"
  by (metis unescape_escape)

lemma toy_mac_inj:
  "HmacSHA256 toy_env m k = HmacSHA256 toy_env m' k \<Longrightarrow> m = m'"
  by (auto simp: toy_env_def dest: escape_inj)

lemma tampered_item_eq:
  "tampered_item =
     \<lparr>j_uuid = Some ''u1'',
      j_content = StringContent ''003:h003%cu1%ci2%c}{abcd:u1:i3:}{:{}'',
      j_enc_item_key = Some ''003:h003%cu1%ci1%cdcba3210cc:u1:i1:dcba3210:{}'',
      j_auth_hash = None, j_auth_params = None, j_deleted = False,
      j_errorDecrypting = False, j_errorDecryptingValueChanged = False\<rparr>"
  by (simp add: tampered_item_def received_def sample_encrypted_003)

lemma generateSymmetricKeyPair_thirds:
  assumes "length (pbkdf2 env password salt cost DefaultPBKDF2Length) = 3 * n"
  shows "generateSymmetricKeyPair env password salt cost =
           (let out = pbkdf2 env password salt cost DefaultPBKDF2Length
            in [take n out, take n (drop n out), drop (2 * n) out])"
  using assms by (simp add: generateSymmetricKeyPair_def Let_def slice_def)

section \<open>Claims about the protocol codec\<close>

text \<open>
  Claim C1. For each of the versions 001, 002 and 003 and every content, decrypting what
  \<^verbatim>\<open>encryptItem\<close> produced, with the same keys, should yield the content. The codec
  does not do this for every 001 item. Under 001 \<^verbatim>\<open>encryptItem\<close> stores the encrypted
  item key as the bare ciphertext, and \<^verbatim>\<open>decryptItem\<close> tells such a key (which its
  comment calls the legacy type that has no prefix) from a versioned envelope by looking
  for a 002 or 003 at its start. A 001 key ciphertext that happens to start with 002 or
  003 is therefore taken for an envelope and refused. With the sample cipher (which
  decryption inverts) the item key \<^verbatim>\<open>0123a200\<close> encrypts to \<^verbatim>\<open>002a3210\<close>: the record
  that \<^verbatim>\<open>encryptItem\<close> produced is marked errorDecrypting and keeps its ciphertext,
  where the content was \<^verbatim>\<open>{}\<close>.
\<close>

theorem roundtrip_fails_for_prefixed_legacy_key:
  "AES_decrypt toy_env (Some (AES_encrypt toy_env ''0123a200'' (mk toy_keys) [])) (mk toy_keys) []
     = Some ''0123a200'' \<and>
   decryptItem toy_env (received ''u1'' legacy_clash_encrypted) toy_keys =
     Normal ((received ''u1'' legacy_clash_encrypted)
       \<lparr>j_errorDecrypting := True, j_errorDecryptingValueChanged := True\<rparr>) \<and>
   j_content (received ''u1'' legacy_clash_encrypted) = StringContent ''001}{'' \<and>
   JSON_stringify toy_env (JObj []) = ''{}''"
  unfolding legacy_clash_encrypted_eq
  by (simp add: toy_env_def toy_keys_def received_def decrypt_defs or_empty_def hmac256_def
      firstHalfOfKey_def secondHalfOfKey_def Let_def)

text \<open>
  Everywhere else the round trip holds: for the versions 001, 002 and 003, decrypting
  what \<^verbatim>\<open>encryptItem\<close> produced, with the same keys, succeeds and leaves the JSON text
  of the content in \<^verbatim>\<open>item.content\<close>, when under 001 the encrypted item key does not
  itself begin with 002 or 003. The other hypotheses say what the injected primitives and the
  inputs are: the cipher inverts at the two plaintexts, the item key and the JSON text are
  not empty, the MACs are not empty, and (for 002 and 003) the uuid, the IVs, the
  ciphertexts and the MACs contain no colon.
\<close>

theorem encrypt_then_decrypt_restores_content:
  assumes ver: "version ap = ''001'' \<or> version ap = ''002'' \<or> version ap = ''003''"
      and ivk: "ivk = (if version ap = ''001'' then [] else iv_key)"
      and ivc: "ivc = (if version ap = ''001'' then [] else iv_content)"
      and pt: "plaintext = JSON_stringify env contentJSON" "plaintext \<noteq> []"
      and ik: "item_key \<noteq> []"
      and ctk: "ctk = AES_encrypt env item_key (mk ks) ivk"
      and ctc: "ctc = AES_encrypt env plaintext (firstHalfOfKey item_key) ivc"
      and hk: "hk = HmacSHA256 env
                 (join_colon [Some (version ap), Some uid, Some iv_key, Some ctk]) (ak ks)"
      and hc: "hc = HmacSHA256 env
                 (join_colon [Some (version ap), Some uid, Some iv_content, Some ctc])
                 (secondHalfOfKey item_key)"
      and inv_k: "AES_decrypt env (Some ctk) (mk ks) ivk = Some item_key"
      and inv_c: "AES_decrypt env (Some ctc) (firstHalfOfKey item_key) ivc = Some plaintext"
      and p: "p = encryptItem env uid contentJSON ks ap item_key iv_key iv_content"
      and legacy: "version ap = ''001'' \<longrightarrow>
                     ctk \<noteq> [] \<and> take 3 ctk \<noteq> ''002'' \<and> take 3 ctk \<noteq> ''003'' \<and>
                     HmacSHA256 env (p_content p) (secondHalfOfKey item_key) \<noteq> []"
      and fields: "version ap \<noteq> ''001'' \<longrightarrow>
                     (\<forall>s \<in> {uid, iv_key, iv_content, ctk, ctc, hk, hc}. CHR '':'' \<notin> set s) \<and>
                     hk \<noteq> [] \<and> hc \<noteq> []"
      and item: "j_uuid item = Some uid" "j_content item = StringContent (p_content p)"
                "j_enc_item_key item = Some (p_enc_item_key p)" "j_auth_hash item = p_auth_hash p"
  shows "\<exists>item'. decryptItem env item ks = Normal item' \<and>
           j_content item' = StringContent plaintext \<and> \<not> j_errorDecrypting item'"
proof (cases "version ap = ''001''")
  case True
  have pk: "p_enc_item_key p = ctk"
    by (simp add: p encryptItem_def Let_def True encryptText_def or_empty_def ctk ivk)
  have pc: "p_content p = ''001'' @ ctc"
    by (simp add: p encryptItem_def Let_def private_encryptString_v1 [OF True] ctc ivc True pt)
  have ph: "p_auth_hash p = Some (HmacSHA256 env (p_content p) (secondHalfOfKey item_key))"
    by (simp add: p encryptItem_def Let_def True hmac256_def)
  have t0: "take 3 (p_content p) \<noteq> ''000''"
    by (simp add: pc)
  from legacy True have K: "ctk \<noteq> []" "take 3 ctk \<noteq> ''002''" "take 3 ctk \<noteq> ''003''"
    and h0: "HmacSHA256 env (p_content p) (secondHalfOfKey item_key) \<noteq> []"
    by simp_all
  have inv_k': "AES_decrypt env (Some ctk) (mk ks) [] = Some item_key"
    using inv_k by (simp add: ivk True)
  have inv_c': "AES_decrypt env (Some ctc) (firstHalfOfKey item_key) [] = Some plaintext"
    using inv_c by (simp add: ivc True)
  have "decryptItem env item ks = decryptContent env item (p_content p) item_key"
    using key_stage_v1 [OF inv_k' ik K item(2) t0] item(3) by (simp add: pk)
  moreover have "\<exists>item'. decryptContent env item (p_content p) item_key = Normal item' \<and>
           j_content item' = StringContent plaintext \<and> \<not> j_errorDecrypting item'"
    by (rule content_stage_v1 [OF pc _ h0 inv_c' pt(2) refl refl]) (simp add: item(4) ph)
  ultimately show ?thesis by simp
next
  case False
  with ver have v: "version ap = ''002'' \<or> version ap = ''003''" by simp
  from fields False have nc: "CHR '':'' \<notin> set uid" "CHR '':'' \<notin> set iv_key"
      "CHR '':'' \<notin> set iv_content" "CHR '':'' \<notin> set ctk" "CHR '':'' \<notin> set ctc"
      "CHR '':'' \<notin> set hk" "CHR '':'' \<notin> set hc" and h0: "hk \<noteq> []" "hc \<noteq> []"
    by simp_all
  have ivk': "ivk = iv_key" and ivc': "ivc = iv_content"
    using False by (simp_all add: ivk ivc)
  let ?aps = "btoa env (JSON_stringify_auth_params env ap)"
  have pk: "p_enc_item_key p =
              join_colon [Some (version ap), Some hk, Some uid, Some iv_key, Some ctk, Some ?aps]"
    unfolding p encryptItem_def Let_def
    using False by (simp add: private_encryptString_v2 [OF False] hk ctk ivk' del: join_colon.simps)
  have pc: "p_content p =
              join_colon [Some (version ap), Some hc, Some uid, Some iv_content, Some ctc,
                Some ?aps]"
    unfolding p encryptItem_def Let_def
    by (simp add: private_encryptString_v2 [OF False] hc ctc ivc' pt(1) del: join_colon.simps)
  have t0: "take 3 (p_content p) \<noteq> ''000''"
    using v by (auto simp: pc)
  have "decryptItem env item ks = decryptContent env item (p_content p) item_key"
    using key_stage_v2 [OF v pk hk h0(1) nc(6,1,2,4) _ ik item(2) t0 item(3,1)] inv_k
    by (simp add: ivk')
  moreover have "\<exists>item'. decryptContent env item (p_content p) item_key = Normal item' \<and>
           j_content item' = StringContent plaintext \<and> \<not> j_errorDecrypting item'"
    using content_stage_v2 [OF v pc hc h0(2) nc(7,1,3,5) _ pt(2) refl refl item(1)] inv_c
    by (simp add: ivc')
  ultimately show ?thesis by simp
qed

theorem encrypt_then_decrypt_restores_content_witness:
  "(\<exists>item'. decryptItem toy_env (received ''u1'' (sample_encrypted ''003'')) toy_keys =
        Normal item' \<and> j_content item' = StringContent ''{}'' \<and> \<not> j_errorDecrypting item') \<and>
   (\<exists>item'. decryptItem toy_env (received ''u1'' (sample_encrypted ''001'')) toy_keys =
        Normal item' \<and> j_content item' = StringContent ''{}'' \<and> \<not> j_errorDecrypting item')"
proof
  show "\<exists>item'. decryptItem toy_env (received ''u1'' (sample_encrypted ''003'')) toy_keys =
        Normal item' \<and> j_content item' = StringContent ''{}'' \<and> \<not> j_errorDecrypting item'"
    by (rule encrypt_then_decrypt_restores_content
          [where env = toy_env and ap = "toy_auth_params ''003''" and uid = "''u1''"
             and contentJSON = "JObj []" and ks = toy_keys and item_key = "''0123abcd''"
             and iv_key = "''i1''" and iv_content = "''i2''" and ivk = "''i1''" and ivc = "''i2''"
             and ctk = "''dcba3210''" and ctc = "''}{''"
             and hk = "''h003%cu1%ci1%cdcba3210cc''" and hc = "''h003%cu1%ci2%c}{abcd''"
             and p = "sample_encrypted ''003''"])
       (simp_all add: sample_encrypted_003,
        simp_all add: toy_defs)
next
  show "\<exists>item'. decryptItem toy_env (received ''u1'' (sample_encrypted ''001'')) toy_keys =
        Normal item' \<and> j_content item' = StringContent ''{}'' \<and> \<not> j_errorDecrypting item'"
    by (rule encrypt_then_decrypt_restores_content
          [where env = toy_env and ap = "toy_auth_params ''001''" and uid = "''u1''"
             and contentJSON = "JObj []" and ks = toy_keys and item_key = "''0123abcd''"
             and iv_key = "''i1''" and iv_content = "''i2''" and ivk = "[]" and ivc = "[]"
             and ctk = "''dcba3210''" and ctc = "''}{''"
             and hk = "''h001%cu1%ci1%cdcba3210cc''" and hc = "''h001%cu1%ci2%c}{abcd''"
             and p = "sample_encrypted ''001''"])
       (simp_all add: sample_encrypted_001,
        simp_all add: toy_defs)
qed

text \<open>
  C2, as stated: for a 002 or 003 envelope, overwriting the iv, the ciphertext or the uuid
  field makes decryption fail, and on that failure the item is marked errorDecrypting,
  its errorDecryptingValueChanged flag is raised and its content is left as it was. The
  flag is raised only when the marking changes: for an item that an earlier attempt has
  already marked, it stays down.
\<close>

theorem tamper_flag_counterexample:
  "j_errorDecrypting tampered_marked_item \<and>
   \<not> j_errorDecryptingValueChanged tampered_marked_item \<and>
   decryptItem toy_env tampered_marked_item toy_keys =
     Normal (tampered_marked_item\<lparr>j_auth_params := Some (JObj [])\<rparr>) \<and>
   \<not> j_errorDecryptingValueChanged
     (tampered_marked_item\<lparr>j_auth_params := Some (JObj [])\<rparr>)"
  unfolding tampered_marked_item_def tampered_item_eq
  by (simp add: toy_env_def toy_keys_def decrypt_defs or_empty_def hmac256_def
      firstHalfOfKey_def secondHalfOfKey_def Let_def)

text \<open>
  C2, amended: for a 002 or 003 envelope whose item key decrypts, overwriting the uuid,
  the iv or the ciphertext field of the content envelope (same length, different value)
  makes \<^verbatim>\<open>decryptItem\<close> refuse: the item is marked errorDecrypting, its content is
  left as it was, and errorDecryptingValueChanged is raised if the item was not marked
  before. The refusal is reported through the flags alone (the method returns nothing).
  The MAC is assumed to separate the original authenticated string from every other one.
\<close>

theorem tampered_envelope_is_rejected:
  assumes v: "v = ''002'' \<or> v = ''003''"
      and K: "K = join_colon [Some v, Some hk, Some uid, Some ivk, Some ctk, Some aps_k]"
      and hk: "hk = HmacSHA256 env (join_colon [Some v, Some uid, Some ivk, Some ctk]) (ak ks)"
             "hk \<noteq> []"
      and nck: "CHR '':'' \<notin> set hk" "CHR '':'' \<notin> set uid" "CHR '':'' \<notin> set ivk"
               "CHR '':'' \<notin> set ctk"
      and inv: "AES_decrypt env (Some ctk) (mk ks) ivk = Some item_key"
      and ik: "item_key \<noteq> []"
      and h: "h = HmacSHA256 env (join_colon [Some v, Some uid, Some ivc, Some ctc])
                    (secondHalfOfKey item_key)"
             "h \<noteq> []"
      and ncc: "CHR '':'' \<notin> set h" "CHR '':'' \<notin> set ivc" "CHR '':'' \<notin> set ctc"
      and len: "length u' = length uid" "length iv' = length ivc" "length ct' = length ctc"
      and diff: "(u', iv', ct') \<noteq> (uid, ivc, ctc)"
      and mac: "\<forall>m. m \<noteq> join_colon [Some v, Some uid, Some ivc, Some ctc] \<longrightarrow>
                  HmacSHA256 env m (secondHalfOfKey item_key) \<noteq> h"
      and item: "j_uuid item = Some uid" "j_enc_item_key item = Some K"
                "j_content item =
                   StringContent (join_colon [Some v, Some h, Some u', Some iv', Some ct', Some aps])"
  shows "\<exists>item'. decryptItem env item ks = Normal item' \<and> j_errorDecrypting item' \<and>
           j_content item' = j_content item \<and>
           (\<not> j_errorDecrypting item \<longrightarrow> j_errorDecryptingValueChanged item')"
proof -
  let ?str = "join_colon [Some v, Some h, Some u', Some iv', Some ct', Some aps]"
  let ?ek = "firstHalfOfKey item_key" and ?ak = "secondHalfOfKey item_key"
  let ?P = "encryptionComponentsFromString ?str ?ek ?ak"
  have lv: "length v = 3" "v \<noteq> ''001''" "CHR '':'' \<notin> set v"
    using v by auto
  have t0: "take 3 ?str \<noteq> ''000''"
    using v by auto
  have ks: "decryptItem env item ks = decryptContent env item ?str item_key"
    by (rule key_stage_v2 [OF v K hk nck inv ik item(3) t0 item(2,1)])
  from tampered_components [OF lv(3) ncc(1) nck(2) ncc(2,3) lv(1,2) len diff refl, of aps ?ek ?ak]
  have P: "authHash ?P = Some h" "ciphertextToAuth ?P \<noteq> join_colon [Some v, Some uid, Some ivc, Some ctc]"
          "authKey ?P = ?ak"
    by simp_all
  from mac P(2) have "HmacSHA256 env (ciphertextToAuth ?P) ?ak \<noteq> h"
    by blast
  with P h(2) have dt: "decryptText env ?P True = Normal None"
    by (auto simp: decryptText_def truthy_def hmac256_def)
  define item1 where "item1 = (case decodeAndParse env (authParams ?P) of
                     None \<Rightarrow> item
                   | Some parsed \<Rightarrow> item\<lparr>j_auth_params := Some parsed\<rparr>)"
  have i1: "j_errorDecrypting item1 = j_errorDecrypting item" "j_content item1 = j_content item"
    by (simp_all add: item1_def split: option.splits)
  have "decryptContent env item ?str item_key = Normal (markErrorDecrypting item1)"
    unfolding decryptContent_def Let_def item1_def [symmetric]
    using P(1) h(2) dt by (simp add: truthy_def del: join_colon.simps)
  with ks i1 show ?thesis
    by simp
qed

theorem tampered_envelope_is_rejected_witness:
  "\<not> j_errorDecrypting tampered_item \<and>
   (\<exists>item'. decryptItem toy_env tampered_item toy_keys = Normal item' \<and>
      j_errorDecrypting item' \<and> j_content item' = j_content tampered_item \<and>
      j_errorDecryptingValueChanged item')"
proof -
  have mac: "\<forall>m. m \<noteq> join_colon [Some ''003'', Some ''u1'', Some ''i2'', Some ''}{''] \<longrightarrow>
               HmacSHA256 toy_env m (secondHalfOfKey ''0123abcd'') \<noteq> ''h003%cu1%ci2%c}{abcd''"
  proof (intro allI impI notI)
    fix m
    assume d: "m \<noteq> join_colon [Some ''003'', Some ''u1'', Some ''i2'', Some ''}{'']"
      and e: "HmacSHA256 toy_env m (secondHalfOfKey ''0123abcd'') = ''h003%cu1%ci2%c}{abcd''"
    have "HmacSHA256 toy_env (join_colon [Some ''003'', Some ''u1'', Some ''i2'', Some ''}{''])
            (secondHalfOfKey ''0123abcd'') = ''h003%cu1%ci2%c}{abcd''"
      by (simp add: toy_env_def secondHalfOfKey_def)
    with e toy_mac_inj d show False by metis
  qed
  have "\<exists>item'. decryptItem toy_env tampered_item toy_keys = Normal item' \<and>
      j_errorDecrypting item' \<and> j_content item' = j_content tampered_item \<and>
      (\<not> j_errorDecrypting tampered_item \<longrightarrow> j_errorDecryptingValueChanged item')"
    by (rule tampered_envelope_is_rejected
          [where env = toy_env and ks = toy_keys and v = "''003''"
             and K = "''003:h003%cu1%ci1%cdcba3210cc:u1:i1:dcba3210:{}''"
             and hk = "''h003%cu1%ci1%cdcba3210cc''" and uid = "''u1''" and ivk = "''i1''"
             and ctk = "''dcba3210''" and aps_k = "''{}''" and item_key = "''0123abcd''"
             and h = "''h003%cu1%ci2%c}{abcd''" and ivc = "''i2''" and ctc = "''}{''"
             and u' = "''u1''" and iv' = "''i3''" and ct' = "''}{''" and aps = "''{}''",
           OF _ _ _ _ _ _ _ _ _ _ _ _ _ _ _ _ _ _ _ mac])
       (simp_all add: tampered_item_eq, simp_all add: toy_defs)
  moreover have "\<not> j_errorDecrypting tampered_item"
    by (simp add: tampered_item_eq)
  ultimately show ?thesis by blast
qed

text \<open>
  C7: for version 003 (and a present identifier) the salt is the SHA-256 of
  \<^verbatim>\<open>identifier:SF:version:pw_cost:pw_nonce\<close>, the keys come from PBKDF2 with SHA-512
  over password and salt with \<^verbatim>\<open>pw_cost\<close> iterations and a key size of 24 words (768
  bits), and an output whose length is a multiple of three is cut into three equal
  thirds, pw, mk and ak in that order.
\<close>

theorem keys_003_derivation:
  assumes v: "version aparams = ''003''"
      and i: "truthy (ap_identifier aparams)"
      and out: "out = PBKDF2 env password
                        (SHA256 env (join_colon [ap_identifier aparams, Some ''SF'', Some ''003'',
                           Some (string_of_nat (pw_cost aparams)), pw_nonce aparams]))
                        24 SHA512 (pw_cost aparams)"
      and len: "length out = 3 * n"
  shows "computeEncryptionKeysForUser env password aparams =
           Some \<lparr>pw = take n out, mk = take n (drop n out), ak = drop (2 * n) out\<rparr> \<and>
         take n out @ take n (drop n out) @ drop (2 * n) out = out \<and>
         length (take n out) = n \<and> length (take n (drop n out)) = n \<and>
         length (drop (2 * n) out) = n"
proof -
  let ?salt = "generateSalt env (ap_identifier aparams) ''003''
                 (pw_cost aparams) (pw_nonce aparams)"
  have o: "pbkdf2 env password ?salt (pw_cost aparams) DefaultPBKDF2Length = out"
    by (simp add: pbkdf2_def DefaultPBKDF2Length_def generateSalt_def sha256_def v out)
  have g: "generateSymmetricKeyPair env password ?salt (pw_cost aparams) =
             [take n out, take n (drop n out), drop (2 * n) out]"
    using generateSymmetricKeyPair_thirds [of env password ?salt "pw_cost aparams" n] len
    by (simp add: o)
  have 1: "computeEncryptionKeysForUser env password aparams =
           Some \<lparr>pw = take n out, mk = take n (drop n out), ak = drop (2 * n) out\<rparr>"
    using v i by (simp add: computeEncryptionKeysForUser_def Let_def g)
  have 2: "take n out @ take n (drop n out) @ drop (2 * n) out = out"
    by (metis append_take_drop_id drop_drop mult_2 add.commute)
  show ?thesis using 1 2 len by simp
qed

theorem keys_003_derivation_witness:
  "computeEncryptionKeysForUser toy_env ''pass'' (toy_auth_params ''003'') =
     Some \<lparr>pw = ''passsa@b.c:SF:003:110000:n0'', mk = ''passsa@b.c:SF:003:110000:n0'',
           ak = ''passsa@b.c:SF:003:110000:n0''\<rparr>"
proof -
  have n: "string_of_nat 110000 = ''110000''"
    by (simp add: string_of_nat.simps)
  let ?o = "''passsa@b.c:SF:003:110000:n0''"
  have l: "length (?o @ ?o @ ?o) = 3 * 27"
    by simp
  have o: "?o @ ?o @ ?o = PBKDF2 toy_env ''pass''
                        (SHA256 toy_env (join_colon [ap_identifier (toy_auth_params ''003''), Some ''SF'', Some ''003'',
                           Some (string_of_nat (pw_cost (toy_auth_params ''003''))), pw_nonce (toy_auth_params ''003'')]))
                        24 SHA512 (pw_cost (toy_auth_params ''003''))"
    by (simp add: toy_auth_params_def toy_env_def n)
  have v: "version (toy_auth_params ''003'') = ''003''"
    "truthy (ap_identifier (toy_auth_params ''003''))"
    by (simp_all add: toy_auth_params_def truthy_def)
  from keys_003_derivation [OF v o l]
  have "computeEncryptionKeysForUser toy_env ''pass'' (toy_auth_params ''003'') =
           Some \<lparr>pw = take 27 (?o @ ?o @ ?o),
                 mk = take 27 (drop 27 (?o @ ?o @ ?o)),
                 ak = drop (2 * 27) (?o @ ?o @ ?o)\<rparr>"
    by (rule conjunct1)
  also have "take 27 (?o @ ?o @ ?o) = ?o" by simp
  also have "take 27 (drop 27 (?o @ ?o @ ?o)) = ?o" by simp
  also have "drop (2 * 27) (?o @ ?o @ ?o) = ?o" by simp
  finally show ?thesis .
qed

text \<open>
  C9, as stated: an envelope with an unrecognised version prefix or with the wrong number
  of fields fails to decrypt, with an error of its own kind. A six-field envelope under
  version 004 and a 003 envelope with a seventh field both decrypt to their content
  \<^verbatim>\<open>{}\<close> without being marked.
\<close>

theorem unchecked_envelope_counterexample:
  "decryptItem toy_env version_004_item toy_keys =
     Normal (version_004_item
       \<lparr>j_auth_params := Some (JObj []), j_content := StringContent ''{}''\<rparr>) \<and>
   \<not> j_errorDecrypting (version_004_item
       \<lparr>j_auth_params := Some (JObj []), j_content := StringContent ''{}''\<rparr>) \<and>
   decryptItem toy_env seven_field_item toy_keys =
     Normal (seven_field_item
       \<lparr>j_auth_params := Some (JObj []), j_content := StringContent ''{}''\<rparr>) \<and>
   \<not> j_errorDecrypting (seven_field_item
       \<lparr>j_auth_params := Some (JObj []), j_content := StringContent ''{}''\<rparr>)"
  unfolding version_004_item_def seven_field_item_def received_def sample_encrypted_003
  by (simp add: toy_env_def toy_keys_def decrypt_defs or_empty_def hmac256_def
      firstHalfOfKey_def secondHalfOfKey_def Let_def)

text \<open>
  C9, amended: \<^verbatim>\<open>decryptItem\<close> checks neither the version prefix nor the number of
  fields of an envelope. An item with an encrypted item key whose content envelope (not a
  000 or 001 one) has fewer than five fields is refused the way a failed authentication
  is: the item is marked errorDecrypting and its content is left as it was; there is no
  separate error for a malformed envelope. (The cipher is assumed to throw on a missing
  ciphertext.)
\<close>

theorem short_envelope_is_rejected:
  assumes c: "j_content item = StringContent str"
      and s: "take 3 str \<noteq> ''000''" "take 3 str \<noteq> ''001''" "length (split_colon str) < 5"
      and k: "truthy (j_enc_item_key item)"
      and thr: "\<forall>key iv0. AES_decrypt env None key iv0 = None"
  shows "\<exists>item'. decrypt env ks False item = Normal item' \<and> j_errorDecrypting item' \<and>
           j_content item' = j_content item"
proof -
  have "\<exists>item1. j_content item1 = j_content item \<and>
          (decryptItem env item ks = Normal (markErrorDecrypting item1) \<or>
           decryptItem env item ks = Thrown item1)"
  proof -
    have dc: "\<And>k. \<exists>item1. j_content item1 = j_content item \<and>
           (decryptContent env item str k = Normal (markErrorDecrypting item1) \<or>
            decryptContent env item str k = Thrown item1)"
      by (rule decryptContent_short [OF s(2,3) thr])
    show ?thesis
      unfolding decryptItem_def Let_def
      using c s(1) k dc
      by (auto split: completion.splits)
  qed
  then obtain item1 where i1: "j_content item1 = j_content item"
      and d: "decryptItem env item ks = Normal (markErrorDecrypting item1) \<or>
              decryptItem env item ks = Thrown item1"
    by blast
  from d show ?thesis
  proof
    assume "decryptItem env item ks = Normal (markErrorDecrypting item1)"
    then show ?thesis using c i1 by (simp add: decrypt_def)
  next
    assume "decryptItem env item ks = Thrown item1"
    then show ?thesis using c i1 by (simp add: decrypt_def)
  qed
qed

theorem short_envelope_is_rejected_witness:
  "\<exists>item'. decrypt toy_env toy_keys False two_field_item = Normal item' \<and>
      j_errorDecrypting item' \<and> j_content item' = j_content two_field_item"
  by (rule short_envelope_is_rejected [where str = "''003:abc''"])
     (simp_all add: two_field_item_def received_def sample_encrypted_003 truthy_def toy_env_def)

text \<open>
  C10: for a record whose content string begins with 000, \<^verbatim>\<open>decryptItem\<close> decodes and
  parses the remainder; the parsed value replaces the content when both steps succeed,
  and the item is returned as it was (errorDecrypting included) when either throws. No
  key, MAC or cipher takes part: the result is the same under any keys, MAC and cipher.
\<close>

theorem plaintext_sentinel_skips_authentication:
  assumes c: "j_content item = StringContent str" and z: "take 3 str = ''000''"
  shows "decryptItem env item ks =
           Normal (case base64Decode env (Some (drop 3 str)) of
                     None \<Rightarrow> item
                   | Some text \<Rightarrow>
                       (case JSON_parse env text of
                          None \<Rightarrow> item
                        | Some parsed \<Rightarrow> item\<lparr>j_content := ParsedContent parsed\<rparr>)) \<and>
         decryptItem (env\<lparr>HmacSHA256 := mac, AES_decrypt := dec\<rparr>) item ks' =
           decryptItem env item ks"
  using c z
  by (simp add: decryptItem_def decodeAndParse_def base64Decode_def split: option.splits)

theorem plaintext_sentinel_skips_authentication_witness:
  "decryptItem toy_env (plaintext_item ''000{}'') toy_keys =
     Normal ((plaintext_item ''000{}'')\<lparr>j_content := ParsedContent (JObj [])\<rparr>) \<and>
   decryptItem toy_env (plaintext_item ''000{'') toy_keys = Normal (plaintext_item ''000{'')"
  using plaintext_sentinel_skips_authentication [of "plaintext_item ''000{}''" "''000{}''" toy_env toy_keys, THEN conjunct1]
    plaintext_sentinel_skips_authentication [of "plaintext_item ''000{''" "''000{''" toy_env toy_keys, THEN conjunct1]
  by (simp add: plaintext_item_def toy_env_def base64Decode_def)

section \<open>The model store: UUID alternation\<close>

lemma store_upd [simp]:
  "nextRef (upd a f s) = nextRef s"
  "itemsHash (upd a f s) = itemsHash s"
  "missedReferences (upd a f s) = missedReferences s"
  "itemsPendingRemoval (upd a f s) = itemsPendingRemoval s"
  "acceptableContentTypes (upd a f s) = acceptableContentTypes s"
  "clock (upd a f s) = clock s"
  "generateUUID (upd a f s) = generateUUID s"
  by (simp_all add: upd_def)



lemma uuid_inheritRelationship [simp]:
  "uuid (heap (inheritRelationship X N R s) b) = uuid (heap s b)"
  unfolding inheritRelationship_def by (simp add: heap_upd)

lemma store_inheritRelationship [simp]:
  "nextRef (inheritRelationship X N R s) = nextRef s"
  "items (inheritRelationship X N R s) = items s"
  "itemsHash (inheritRelationship X N R s) = itemsHash s"
  "itemsPendingRemoval (inheritRelationship X N R s) = itemsPendingRemoval s"
  "acceptableContentTypes (inheritRelationship X N R s) = acceptableContentTypes s"
  "clock (inheritRelationship X N R s) = clock s"
  unfolding inheritRelationship_def addItemAsRelationship_def setIsBeingReferencedBy_def
    setIsNoLongerBeingReferencedBy_def
  by (simp_all add: Let_def)





lemma uuid_fold_inheritRelationship [simp]:
  "uuid (heap (fold (inheritRelationship X N) Rs s) b) = uuid (heap s b)"
  by (induction Rs arbitrary: s) simp_all


lemma store_fold_inheritRelationship [simp]:
  "nextRef (fold (inheritRelationship X N) Rs s) = nextRef s"
  "items (fold (inheritRelationship X N) Rs s) = items s"
  "itemsHash (fold (inheritRelationship X N) Rs s) = itemsHash s"
  "itemsPendingRemoval (fold (inheritRelationship X N) Rs s) = itemsPendingRemoval s"
  "acceptableContentTypes (fold (inheritRelationship X N) Rs s) = acceptableContentTypes s"
  "clock (fold (inheritRelationship X N) Rs s) = clock s"
  by (induction Rs arbitrary: s) simp_all



lemma funpow_setDirty_fields [simp]:
  "uuid ((setDirty d ^^ n) t) = uuid t"
  "referencingObjects ((setDirty d ^^ n) t) = referencingObjects t"
  by (induction n) simp_all

lemma potentialItemOfInterestHasChangedItsUUID_fields [simp]:
  "uuid (potentialItemOfInterestHasChangedItsUUID old new t) = uuid t"
  "referencingObjects (potentialItemOfInterestHasChangedItsUUID old new t) = referencingObjects t"
  by (simp_all add: potentialItemOfInterestHasChangedItsUUID_def split: prod.split)

lemma informModels_aux:
  "uuid (heap (fold (\<lambda>model. upd model (potentialItemOfInterestHasChangedItsUUID old new)) ms s) b) =
     uuid (heap s b) \<and>
   referencingObjects
     (heap (fold (\<lambda>model. upd model (potentialItemOfInterestHasChangedItsUUID old new)) ms s) b) =
     referencingObjects (heap s b) \<and>
   itemsHash (fold (\<lambda>model. upd model (potentialItemOfInterestHasChangedItsUUID old new)) ms s) =
     itemsHash s \<and>
   nextRef (fold (\<lambda>model. upd model (potentialItemOfInterestHasChangedItsUUID old new)) ms s) =
     nextRef s"
  by (induction ms arbitrary: s) (simp_all add: heap_upd)

lemma informModelsOfUUIDChangeForItem_fields [simp]:
  "uuid (heap (informModelsOfUUIDChangeForItem old new s) b) = uuid (heap s b)"
  "referencingObjects (heap (informModelsOfUUIDChangeForItem old new s) b) =
     referencingObjects (heap s b)"
  "itemsHash (informModelsOfUUIDChangeForItem old new s) = itemsHash s"
  "nextRef (informModelsOfUUIDChangeForItem old new s) = nextRef s"
  unfolding informModelsOfUUIDChangeForItem_def by (simp_all add: informModels_aux)


lemma as_json_fields [simp]:
  "jo_uuid (as_json t) = Some (uuid t)"
  "jo_deleted (as_json t) = deleted t"
  "jo_dirty (as_json t) = Some (dirty t)"
  "jo_content (as_json t) = ObjectContent (Some (references t))"
  by (simp_all add: as_json_def)




section \<open>Claims about the model store\<close>

text \<open>
  Claim C4. A reference from \<open>A\<close> to \<open>B\<close> should give \<open>B\<close> the back-reference to
  \<open>A\<close> once \<open>B\<close> is in the store, and a batch that maps the item a missed reference
  waits for should install the edge between the waiting item and that item. The
  mapper does not do this when the awaited item is not the last one of its batch. The
  note \<open>a\<close> (address 0) waits for the tag \<open>b\<close>; the batch \<open>[b, c]\<close> is mapped to the
  addresses 1 and 2. Afterwards the missed-references table is empty, \<open>b\<close> has no
  back-reference, and \<open>a\<close> has become a relationship of \<open>c\<close>: it is in the
  back-references of \<open>c\<close> and has gained a reference to \<open>c\<close>.
\<close>

theorem missed_reference_attached_to_last_mapped_item:
  "map (\<lambda>e. reference_uuid (snd e)) (missedReferences waiting_store) = [''b''] \<and>
   (case mapResponseItemsToLocalModels
           [server_record ''b'' ''Tag'' [], server_record ''c'' ''Tag'' []] waiting_store of
      Thrown _ \<Rightarrow> False
    | Normal (models, s) \<Rightarrow>
        models = [1, 2] \<and>
        map (\<lambda>a. uuid (heap s a)) (items s) = [''a'', ''b'', ''c''] \<and>
        missedReferences s = [] \<and>
        map ref_uuid (references (heap s 0)) = [''b'', ''c''] \<and>
        referencingObjects (heap s 1) = [] \<and>
        referencingObjects (heap s 2) = [0])"
  by code_simp



section \<open>Marking for deletion: lemmas\<close>

text \<open>
  Marking an item for deletion raises its \<^verbatim>\<open>deleted\<close> flag and no other, never
  lowers a \<^verbatim>\<open>dirty\<close> flag, and leaves the \<^verbatim>\<open>dummy\<close> flags alone.
\<close>

lemma flags_setIsNoLongerBeingReferencedBy:
  "deleted (heap (setIsNoLongerBeingReferencedBy this item s) b) = deleted (heap s b)"
  "dummy (heap (setIsNoLongerBeingReferencedBy this item s) b) = dummy (heap s b)"
  "dirty (heap s b) \<Longrightarrow> dirty (heap (setIsNoLongerBeingReferencedBy this item s) b)"
  by (auto simp: setIsNoLongerBeingReferencedBy_def Let_def heap_upd setDirty_def
      removeReferenceWithUuid_def)

lemma flags_removeItemAsRelationship:
  "deleted (heap (removeItemAsRelationship this item s) b) = deleted (heap s b)"
  "dummy (heap (removeItemAsRelationship this item s) b) = dummy (heap s b)"
  "dirty (heap s b) \<Longrightarrow> dirty (heap (removeItemAsRelationship this item s) b)"
  by (auto simp: removeItemAsRelationship_def Let_def heap_upd removeReferenceWithUuid_def
      flags_setIsNoLongerBeingReferencedBy)

lemma flags_setDirty_True:
  "deleted (setDirty True t) = deleted t" "dummy (setDirty True t) = dummy t"
  "dirty (setDirty True t)"
  by (auto simp: setDirty_def Let_def)

lemma flags_removeDirectRelationship:
  "deleted (heap (removeDirectRelationship item r s) b) = deleted (heap s b)"
  "dummy (heap (removeDirectRelationship item r s) b) = dummy (heap s b)"
  "dirty (heap s b) \<Longrightarrow> dirty (heap (removeDirectRelationship item r s) b)"
  by (auto simp: removeDirectRelationship_def Let_def heap_upd flags_setDirty_True
      flags_removeItemAsRelationship findItem_def split: option.split)

lemma flags_fold_removeDirectRelationship:
  "deleted (heap (fold (removeDirectRelationship item) rs s) b) = deleted (heap s b)"
  "dummy (heap (fold (removeDirectRelationship item) rs s) b) = dummy (heap s b)"
  "dirty (heap s b) \<Longrightarrow> dirty (heap (fold (removeDirectRelationship item) rs s) b)"
  by (induction rs arbitrary: s) (auto simp: flags_removeDirectRelationship)

lemma flags_removeIndirectRelationship:
  "deleted (heap (removeIndirectRelationship item object s) b) = deleted (heap s b)"
  "dummy (heap (removeIndirectRelationship item object s) b) = dummy (heap s b)"
  "dirty (heap s b) \<Longrightarrow> dirty (heap (removeIndirectRelationship item object s) b)"
  by (auto simp: removeIndirectRelationship_def heap_upd flags_setDirty_True
      flags_removeItemAsRelationship)

lemma flags_removeIndirectRelationships:
  "deleted (heap (removeIndirectRelationships item i s) b) = deleted (heap s b) \<and>
   dummy (heap (removeIndirectRelationships item i s) b) = dummy (heap s b) \<and>
   (dirty (heap s b) \<longrightarrow> dirty (heap (removeIndirectRelationships item i s) b))"
proof (induction item i s rule: removeIndirectRelationships.induct)
  case (1 item i s)
  show ?case
  proof (cases "i < length (referencingObjects (heap s item))")
    case True
    from "1.IH" [OF True] True show ?thesis
      by (simp add: removeIndirectRelationships.simps [of item i s]
          flags_removeIndirectRelationship)
  next
    case False
    then show ?thesis
      by (simp add: removeIndirectRelationships.simps [of item i s])
  qed
qed

lemma flags_removeAndDirtyAllRelationshipsForItem:
  "deleted (heap (removeAndDirtyAllRelationshipsForItem item s) b) = deleted (heap s b)"
  "dummy (heap (removeAndDirtyAllRelationshipsForItem item s) b) = dummy (heap s b)"
  "dirty (heap s b) \<Longrightarrow> dirty (heap (removeAndDirtyAllRelationshipsForItem item s) b)"
  by (auto simp: removeAndDirtyAllRelationshipsForItem_def Let_def heap_upd
      flags_removeIndirectRelationships flags_fold_removeDirectRelationship)

lemma flags_setItemToBeDeleted:
  "deleted (heap (setItemToBeDeleted item s) b) = (b = item \<or> deleted (heap s b))"
  "dummy (heap (setItemToBeDeleted item s) b) = dummy (heap s b)"
  by (auto simp: setItemToBeDeleted_def Let_def heap_upd flags_setDirty_True
      flags_removeAndDirtyAllRelationshipsForItem)

lemma dirty_setItemToBeDeleted:
  "dirty (heap s b) \<Longrightarrow> dirty (heap (setItemToBeDeleted item s) b)"
  "\<not> dummy (heap s item) \<Longrightarrow> dirty (heap (setItemToBeDeleted item s) item)"
proof -
  show "dirty (heap (setItemToBeDeleted item s) b)" if "dirty (heap s b)"
    unfolding setItemToBeDeleted_def Let_def
    using that
    by (intro flags_removeAndDirtyAllRelationshipsForItem(3))
      (auto simp: heap_upd flags_setDirty_True)
  show "dirty (heap (setItemToBeDeleted item s) item)" if "\<not> dummy (heap s item)"
    unfolding setItemToBeDeleted_def Let_def
    using that
    by (intro flags_removeAndDirtyAllRelationshipsForItem(3))
      (auto simp: heap_upd flags_setDirty_True)
qed

lemma flags_fold_setItemToBeDeleted:
  "deleted (heap (fold setItemToBeDeleted ds s) b) = (b \<in> set ds \<or> deleted (heap s b))"
  "dummy (heap (fold setItemToBeDeleted ds s) b) = dummy (heap s b)"
  "dirty (heap s b) \<Longrightarrow> dirty (heap (fold setItemToBeDeleted ds s) b)"
  by (induction ds arbitrary: s) (auto simp: flags_setItemToBeDeleted dirty_setItemToBeDeleted)

lemma dirty_fold_setItemToBeDeleted:
  "b \<in> set ds \<Longrightarrow> \<not> dummy (heap s b) \<Longrightarrow> dirty (heap (fold setItemToBeDeleted ds s) b)"
proof (induction ds arbitrary: s)
  case Nil
  then show ?case by simp
next
  case (Cons d ds)
  show ?case
  proof (cases "b = d")
    case True
    with Cons.prems have "dirty (heap (setItemToBeDeleted d s) b)"
      by (simp add: dirty_setItemToBeDeleted)
    then show ?thesis
      by (simp add: flags_fold_setItemToBeDeleted)
  next
    case False
    with Cons.prems Cons.IH [of "setItemToBeDeleted d s"] show ?thesis
      by (simp add: flags_setItemToBeDeleted)
  qed
qed

lemma created_at_compare_negative [simp]:
  "(created_at_compare s b a < 0) = (created_at (heap s b) < created_at (heap s a))"
  by (simp add: created_at_compare_def)

lemma distinct_itemsMatchingPredicates:
  "distinct (items s) \<Longrightarrow> distinct (itemsMatchingPredicates s preds)"
  by (simp add: itemsMatchingPredicates_def filterItemsWithPredicates_def allItems_def)

lemma dummy_itemsMatchingPredicates:
  "a \<in> set (itemsMatchingPredicates s preds) \<Longrightarrow> \<not> dummy (heap s a)"
  by (simp add: itemsMatchingPredicates_def filterItemsWithPredicates_def allItems_def)


lemma prefs_facts:
  "length (singletonHandlers prefs_manager) = 1"
  "resolutionCallback (singletonHandlers prefs_manager ! 0)"
  "syncCalls prefs_manager = 0"
  "resolutionCalls prefs_manager = []"
  "itemsMatchingPredicates prefs_store (predicates (singletonHandlers prefs_manager ! 0)) =
     [0, 1, 2]"
  "filterItemsWithPredicates prefs_store [2] (predicates (singletonHandlers prefs_manager ! 0)) =
     [2]"
  "insertion_sort (created_at_compare prefs_store) [0, 1, 2] = [1, 2, 0]"
  "items prefs_store = [0, 1, 2]"
  "created_at (heap prefs_store 0) = 7"
  "created_at (heap prefs_store 1) = 3"
  "created_at (heap prefs_store 2) = 5"
  "\<not> deleted (heap prefs_store 1)"
  by code_simp+

lemmas prefs_facts_Suc = prefs_facts [unfolded One_nat_def]

section \<open>Claims about the singleton resolver\<close>

text \<open>
  Claim C8. The resolver reaches a registered handler with at least one retrieved or
  saved item matching its predicates, and two or more items of the store match them.
  Then the handler's singleton becomes an item \<open>w\<close> of the matching ones whose
  \<^verbatim>\<open>created_at\<close> is the earliest, and the \<^verbatim>\<open>deleted\<close> flag of \<open>w\<close> is left as it was;
  every other matching item ends deleted and dirty; \<^verbatim>\<open>syncManager.sync()\<close> is called
  once; and the resolution callback, when one was registered, is called with \<open>w\<close>.
  The engine's sort is assumed to return a permutation of the array in which no
  element precedes one that the compare function puts before it, and the store to list
  every object once.
\<close>

theorem resolveHandler_keeps_earliest:
  assumes registered: "i < length (singletonHandlers m)"
    and activity:
      "filterItemsWithPredicates s retrievedItems (predicates (singletonHandlers m ! i)) \<noteq> [] \<or>
       filterItemsWithPredicates s savedItems (predicates (singletonHandlers m ! i)) \<noteq> []"
    and several: "2 \<le> length (itemsMatchingPredicates s (predicates (singletonHandlers m ! i)))"
    and permutation:
      "mset (array_sort (created_at_compare s)
               (itemsMatchingPredicates s (predicates (singletonHandlers m ! i)))) =
       mset (itemsMatchingPredicates s (predicates (singletonHandlers m ! i)))"
    and ordered:
      "sorted_wrt (\<lambda>a b. \<not> created_at_compare s b a < 0)
         (array_sort (created_at_compare s)
            (itemsMatchingPredicates s (predicates (singletonHandlers m ! i))))"
    and listed_once: "distinct (items s)"
  shows "\<exists>w s' m'.
           resolveHandler array_sort retrievedItems savedItems initialLoad i (s, m) = (s', m') \<and>
           w \<in> set (itemsMatchingPredicates s (predicates (singletonHandlers m ! i))) \<and>
           (\<forall>a \<in> set (itemsMatchingPredicates s (predicates (singletonHandlers m ! i))).
              created_at (heap s w) \<le> created_at (heap s a)) \<and>
           singleton (singletonHandlers m' ! i) = Some w \<and>
           deleted (heap s' w) = deleted (heap s w) \<and>
           (\<forall>a \<in> set (itemsMatchingPredicates s (predicates (singletonHandlers m ! i))).
              a \<noteq> w \<longrightarrow> deleted (heap s' a) \<and> dirty (heap s' a)) \<and>
           syncCalls m' = Suc (syncCalls m) \<and>
           resolutionCalls m' =
             resolutionCalls m @
               (if resolutionCallback (singletonHandlers m ! i) then [(i, w)] else [])"
proof -
  let ?h = "singletonHandlers m ! i"
  let ?all = "itemsMatchingPredicates s (predicates ?h)"
  let ?sorted = "array_sort (created_at_compare s) ?all"
  from permutation have "length ?sorted = length ?all"
    by (rule mset_eq_length)
  with several have "0 < length ?sorted"
    by linarith
  then obtain w rest where sorted: "?sorted = w # rest"
    by (cases ?sorted) simp_all
  let ?s' = "fold setItemToBeDeleted rest s"
  let ?m' = "notifyResolution i w (m\<lparr>syncCalls := Suc (syncCalls m)\<rparr>)"
  from permutation have "set ?sorted = set ?all"
    by (rule mset_eq_setD)
  then have set_eq: "set ?all = insert w (set rest)"
    by (simp add: sorted)
  from listed_once have "distinct ?all"
    by (rule distinct_itemsMatchingPredicates)
  moreover from permutation have "distinct ?sorted = distinct ?all"
    by (rule mset_eq_imp_distinct_iff)
  ultimately have "distinct ?sorted"
    by blast
  then have winner_once: "w \<notin> set rest"
    by (simp add: sorted)
  from ordered have later: "\<forall>b \<in> set rest. \<not> created_at (heap s b) < created_at (heap s w)"
    by (simp add: sorted)
  have earliest: "\<forall>a \<in> set ?all. created_at (heap s w) \<le> created_at (heap s a)"
    unfolding set_eq using later by auto
  have result: "resolveHandler array_sort retrievedItems savedItems initialLoad i (s, m) = (?s', ?m')"
    using activity several by (simp add: resolveHandler_def Let_def sorted)
  have kept: "deleted (heap ?s' w) = deleted (heap s w)"
    using winner_once by (simp add: flags_fold_setItemToBeDeleted)
  have marked: "\<forall>a \<in> set ?all. a \<noteq> w \<longrightarrow> deleted (heap ?s' a) \<and> dirty (heap ?s' a)"
  proof (intro ballI impI)
    fix a
    assume a: "a \<in> set ?all" and "a \<noteq> w"
    then have "a \<in> set rest"
      by (simp add: set_eq)
    moreover from a have "\<not> dummy (heap s a)"
      by (rule dummy_itemsMatchingPredicates)
    ultimately show "deleted (heap ?s' a) \<and> dirty (heap ?s' a)"
      by (simp add: flags_fold_setItemToBeDeleted dirty_fold_setItemToBeDeleted)
  qed
  have manager: "singleton (singletonHandlers ?m' ! i) = Some w"
    "syncCalls ?m' = Suc (syncCalls m)"
    "resolutionCalls ?m' = resolutionCalls m @ (if resolutionCallback ?h then [(i, w)] else [])"
    using registered by (simp_all add: notifyResolution_def)
  have winner_in: "w \<in> set ?all"
    by (simp add: set_eq)
  show ?thesis
    apply (rule exI [of _ w])
    apply (rule exI [of _ ?s'])
    apply (rule exI [of _ ?m'])
    apply (intro conjI)
           apply (rule result)
          apply (rule winner_in)
         apply (rule earliest)
        apply (rule manager(1))
       apply (rule kept)
      apply (rule marked)
     apply (rule manager(2))
    apply (rule manager(3))
    done
qed

theorem resolveHandler_keeps_earliest_witness:
  "itemsMatchingPredicates prefs_store (predicates (singletonHandlers prefs_manager ! 0)) =
     [0, 1, 2] \<and>
   filterItemsWithPredicates prefs_store [2] (predicates (singletonHandlers prefs_manager ! 0)) =
     [2] \<and>
   insertion_sort (created_at_compare prefs_store) [0, 1, 2] = [1, 2, 0] \<and>
   (\<exists>s' m'.
      resolveSingletons insertion_sort [2] [] False (prefs_store, prefs_manager) = (s', m') \<and>
      singleton (singletonHandlers m' ! 0) = Some 1 \<and> \<not> deleted (heap s' 1) \<and>
      deleted (heap s' 0) \<and> dirty (heap s' 0) \<and> deleted (heap s' 2) \<and> dirty (heap s' 2) \<and>
      syncCalls m' = 1 \<and> resolutionCalls m' = [(0, 1)])"
proof -
  let ?preds = "predicates (singletonHandlers prefs_manager ! 0)"
  let ?all = "itemsMatchingPredicates prefs_store ?preds"
  have "\<exists>w s' m'.
      resolveHandler insertion_sort [2] [] False 0 (prefs_store, prefs_manager) = (s', m') \<and>
      w \<in> set ?all \<and>
      (\<forall>a \<in> set ?all. created_at (heap prefs_store w) \<le> created_at (heap prefs_store a)) \<and>
      singleton (singletonHandlers m' ! 0) = Some w \<and>
      deleted (heap s' w) = deleted (heap prefs_store w) \<and>
      (\<forall>a \<in> set ?all. a \<noteq> w \<longrightarrow> deleted (heap s' a) \<and> dirty (heap s' a)) \<and>
      syncCalls m' = Suc (syncCalls prefs_manager) \<and>
      resolutionCalls m' =
        resolutionCalls prefs_manager @
          (if resolutionCallback (singletonHandlers prefs_manager ! 0) then [(0, w)] else [])"
    by (rule resolveHandler_keeps_earliest) (simp_all add: prefs_facts_Suc)
  then obtain w s' m' where
      result: "resolveHandler insertion_sort [2] [] False 0 (prefs_store, prefs_manager) = (s', m')"
    and w: "w \<in> set ?all"
    and earliest:
      "\<forall>a \<in> set ?all. created_at (heap prefs_store w) \<le> created_at (heap prefs_store a)"
    and rest: "singleton (singletonHandlers m' ! 0) = Some w"
      "deleted (heap s' w) = deleted (heap prefs_store w)"
      "\<forall>a \<in> set ?all. a \<noteq> w \<longrightarrow> deleted (heap s' a) \<and> dirty (heap s' a)"
      "syncCalls m' = Suc (syncCalls prefs_manager)"
      "resolutionCalls m' =
        resolutionCalls prefs_manager @
          (if resolutionCallback (singletonHandlers prefs_manager ! 0) then [(0, w)] else [])"
    by blast
  from w earliest have winner: "w = 1"
    by (auto simp: prefs_facts_Suc)
  have "resolveSingletons insertion_sort [2] [] False (prefs_store, prefs_manager) = (s', m')"
    by (simp add: resolveSingletons_def prefs_facts_Suc result)
  with rest show ?thesis
    by (simp add: prefs_facts_Suc winner)
qed

end
